theory Spec2Isabelle
  imports Main "HOL-Library.Sublist"
begin

section \<open>Strings\<close>

text \<open>
  A Go string is a sequence of bytes holding UTF-8 text; it is modelled as a
  \<^typ>\<open>string\<close>, one \<^typ>\<open>char\<close> per byte.

  \<^verbatim>\<open>strings.TrimSpace\<close> removes the leading and the trailing white space runes, as
  \<^verbatim>\<open>unicode.IsSpace\<close> defines them: U+0009 to U+000D, U+0020, U+0085, U+00A0, U+1680,
  U+2000 to U+200A, U+2028, U+2029, U+202F, U+205F and U+3000. \<open>whiteSpace\<close> lists their
  UTF-8 encodings.
\<close>

definition whiteSpace :: "string list" where
  "whiteSpace =
    [[CHR 0x09], [CHR 0x0A], [CHR 0x0B], [CHR 0x0C], [CHR 0x0D], [CHR 0x20],
     [CHR 0xC2, CHR 0x85], [CHR 0xC2, CHR 0xA0],
     [CHR 0xE1, CHR 0x9A, CHR 0x80],
     [CHR 0xE2, CHR 0x80, CHR 0x80], [CHR 0xE2, CHR 0x80, CHR 0x81],
     [CHR 0xE2, CHR 0x80, CHR 0x82], [CHR 0xE2, CHR 0x80, CHR 0x83],
     [CHR 0xE2, CHR 0x80, CHR 0x84], [CHR 0xE2, CHR 0x80, CHR 0x85],
     [CHR 0xE2, CHR 0x80, CHR 0x86], [CHR 0xE2, CHR 0x80, CHR 0x87],
     [CHR 0xE2, CHR 0x80, CHR 0x88], [CHR 0xE2, CHR 0x80, CHR 0x89],
     [CHR 0xE2, CHR 0x80, CHR 0x8A],
     [CHR 0xE2, CHR 0x80, CHR 0xA8], [CHR 0xE2, CHR 0x80, CHR 0xA9],
     [CHR 0xE2, CHR 0x80, CHR 0xAF], [CHR 0xE2, CHR 0x81, CHR 0x9F],
     [CHR 0xE3, CHR 0x80, CHR 0x80]]"

definition leadingSpace :: "string \<Rightarrow> nat" where
  \<comment> \<open>the width of the white space rune the string starts with, 0 when it starts with none\<close>
  "leadingSpace s = (case find (\<lambda>w. prefix w s) whiteSpace of None \<Rightarrow> 0 | Some w \<Rightarrow> length w)"

definition trailingSpace :: "string \<Rightarrow> nat" where
  \<comment> \<open>the width of the white space rune the string ends with, 0 when it ends with none\<close>
  "trailingSpace s = (case find (\<lambda>w. suffix w s) whiteSpace of None \<Rightarrow> 0 | Some w \<Rightarrow> length w)"

lemma leadingSpace_le: "leadingSpace s \<le> length s"
  by (auto simp: leadingSpace_def split: option.splits dest!: find_Some_iff[THEN iffD1]
      intro: prefix_length_le)

lemma trailingSpace_le: "trailingSpace s \<le> length s"
  by (auto simp: trailingSpace_def split: option.splits dest!: find_Some_iff[THEN iffD1]
      intro: suffix_length_le)

function TrimLeft :: "string \<Rightarrow> string" where
  "TrimLeft s = (if leadingSpace s = 0 then s else TrimLeft (drop (leadingSpace s) s))"
  by pat_completeness auto
termination
proof (relation "measure length")
  show "wf (measure length)" by simp
next
  fix s :: string
  assume "leadingSpace s \<noteq> 0"
  moreover have "leadingSpace s \<le> length s" by (rule leadingSpace_le)
  ultimately show "(drop (leadingSpace s) s, s) \<in> measure length" by simp
qed

function TrimRight :: "string \<Rightarrow> string" where
  "TrimRight s =
     (if trailingSpace s = 0 then s else TrimRight (take (length s - trailingSpace s) s))"
  by pat_completeness auto
termination
proof (relation "measure length")
  show "wf (measure length)" by simp
next
  fix s :: string
  assume "trailingSpace s \<noteq> 0"
  moreover have "trailingSpace s \<le> length s" by (rule trailingSpace_le)
  ultimately show "(take (length s - trailingSpace s) s, s) \<in> measure length" by simp
qed

declare TrimLeft.simps [simp del] TrimRight.simps [simp del]

definition TrimSpace :: "string \<Rightarrow> string" where
  "TrimSpace s = TrimRight (TrimLeft s)"

definition HasPrefix :: "string \<Rightarrow> string \<Rightarrow> bool" where
  "HasPrefix s p = prefix p s"

definition HasSuffix :: "string \<Rightarrow> string \<Rightarrow> bool" where
  "HasSuffix s p = suffix p s"

definition removeSpaces :: "string \<Rightarrow> string" where
  \<comment> \<open>\<^verbatim>\<open>strings.ReplaceAll(s, " ", "")\<close>: every byte 0x20 is deleted\<close>
  "removeSpaces s = filter (\<lambda>c. c \<noteq> CHR 0x20) s"

section \<open>Data model\<close>

text \<open>
  Modelled from the spec: the declaration of \<^verbatim>\<open>typesPkg.MainStruct\<close> is not among the
  sources. It is the canonical article of the specification, with the four fields
  \<open>GUID\<close>, \<open>Title\<close>, \<open>Header\<close> and \<open>Link\<close>, all strings, which are the fields the
  code reads and writes.
\<close>

record MainStruct =
  GUID :: string
  Title :: string
  Header :: string
  Link :: string

text \<open>
  Modelled from the spec: the declarations of \<^verbatim>\<open>feeds.FeedConfig\<close> and
  \<^verbatim>\<open>typesPkg.Agents\<close> are not among the sources. A feed's configuration has the
  address, the header, the selector of the user agent and the flag for the extended
  headers that \<^verbatim>\<open>ParseRSSFeed\<close> reads (\<^verbatim>\<open>URL\<close>, \<^verbatim>\<open>Header\<close>, \<^verbatim>\<open>Agent\<close>,
  \<^verbatim>\<open>EnhancedHeaders\<close>); the agents are the three user-agent strings (\<^verbatim>\<open>Bot\<close>,
  \<^verbatim>\<open>Chrome\<close>, \<^verbatim>\<open>Reader\<close>).
\<close>

record FeedConfig =
  feed_URL :: string
  feed_Header :: string
  feed_Agent :: string
  feed_EnhancedHeaders :: bool

record Agents =
  agent_Bot :: string
  agent_Chrome :: string
  agent_Reader :: string

text \<open>The decoded XML: \<^verbatim>\<open>AtomEntry\<close>, \<^verbatim>\<open>Item\<close> and \<^verbatim>\<open>SlashdotItem\<close>.\<close>

record AtomEntry =
  entry_Title :: string
  entry_LinkHref :: string
  entry_ID :: string
  entry_Content :: string

record Item =
  item_Title :: string
  item_Link :: string
  item_GUID :: string
  item_ItemID :: string
  item_AtomLinkHref :: string

record SlashdotItem =
  sd_Title :: string
  sd_Link :: string

text \<open>
  The tokens of \<^verbatim>\<open>golang.org/x/net/html\<close> and the two fields of \<^verbatim>\<open>url.URL\<close> that the
  link resolver reads. \<open>url_Host\<close> is the field \<^verbatim>\<open>Host\<close>: the host, followed by a colon
  and the port when the URL names a port (\<open>reddit.com:443\<close>).
\<close>

datatype TokenType =
  ErrorToken | TextToken | StartTagToken | EndTagToken | SelfClosingTagToken
  | CommentToken | DoctypeToken

record Attribute =
  attr_Key :: string
  attr_Val :: string

record Token =
  tok_Type :: TokenType
  tok_Data :: string
  tok_Attr :: "Attribute list"

record URL =
  url_Scheme :: string
  url_Host :: string

text \<open>
  The library functions the parsers call are parameters of the model:
  \<^verbatim>\<open>html.UnescapeString\<close>, the token stream of \<^verbatim>\<open>nethtml.NewTokenizer\<close> (the tokens
  that \<^verbatim>\<open>z.Next()\<close> yields, in order; the end of the list stands for the
  \<^verbatim>\<open>ErrorToken\<close> at the end of the input), \<^verbatim>\<open>url.Parse\<close> (\<open>None\<close> when it returns an
  error), \<^verbatim>\<open>strings.ToLower\<close>, and \<^verbatim>\<open>decodeXML\<close> at each of the three target types
  (\<open>Inl\<close> the decoding error).
\<close>

record Lib =
  UnescapeString :: "string \<Rightarrow> string"
  Tokenizer :: "string \<Rightarrow> Token list"
  url_Parse :: "string \<Rightarrow> URL option"
  ToLower :: "string \<Rightarrow> string"
  decodeSlashdotRDF :: "string \<Rightarrow> string + SlashdotItem list"
  decodeAtomFeed :: "string \<Rightarrow> string + AtomEntry list"
  decodeRSS :: "string \<Rightarrow> string + Item list"

section \<open>The XML decoder on an RSS item\<close>

text \<open>
  \<^verbatim>\<open>decodeXML\<close> fills an \<^verbatim>\<open>Item\<close> from the child elements of an \<^verbatim>\<open>item\<close> element, in the
  order of the document, by the rules of \<^verbatim>\<open>encoding/xml\<close> and the tags of the struct.
  An element goes to the first field, in the order the struct declares its fields,
  whose tag has the element's local name and either no namespace or the namespace
  of the element; an element that matches no field is skipped. A string field takes
  the character data of the element and loses what it held before; the field
  \<^verbatim>\<open>AtomLink\<close> takes the value of the attribute \<^verbatim>\<open>href\<close>. An element is given by its
  namespace, its local name, its attributes and its character data.
\<close>

record XmlAttr =
  xa_Space :: string
  xa_Local :: string
  xa_Value :: string

record XmlElement =
  xe_Space :: string
  xe_Local :: string
  xe_Attr :: "XmlAttr list"
  xe_Text :: string

datatype ItemField = TitleField | LinkField | GUIDField | ItemIDField | AtomLinkField

definition itemFields :: "(ItemField \<times> string \<times> string) list" where
  \<comment> \<open>the fields of \<^verbatim>\<open>Item\<close> in the order of their declaration: field, local name, namespace\<close>
  "itemFields =
     [(TitleField, ''title'', []),
      (LinkField, ''link'', []),
      (GUIDField, ''guid'', []),
      (ItemIDField, ''itemID'', []),
      (AtomLinkField, ''link'', ''http://www.w3.org/2005/Atom'')]"

definition fieldMatches :: "XmlElement \<Rightarrow> ItemField \<times> string \<times> string \<Rightarrow> bool" where
  "fieldMatches el f =
     (case f of (field, name, xmlns) \<Rightarrow>
        (xmlns = [] \<or> xmlns = xe_Space el) \<and> name = xe_Local el)"

definition unmarshalHref :: "XmlAttr list \<Rightarrow> string \<Rightarrow> string" where
  \<comment> \<open>the attributes in order; each one named \<^verbatim>\<open>href\<close> sets the field\<close>
  "unmarshalHref attrs href =
     foldl (\<lambda>h a. if xa_Local a = ''href'' then xa_Value a else h) href attrs"

definition unmarshalChild :: "Item \<Rightarrow> XmlElement \<Rightarrow> Item" where
  "unmarshalChild item el =
     (case find (fieldMatches el) itemFields of
        None \<Rightarrow> item
      | Some (field, name, xmlns) \<Rightarrow>
          (case field of
             TitleField \<Rightarrow> item\<lparr>item_Title := xe_Text el\<rparr>
           | LinkField \<Rightarrow> item\<lparr>item_Link := xe_Text el\<rparr>
           | GUIDField \<Rightarrow> item\<lparr>item_GUID := xe_Text el\<rparr>
           | ItemIDField \<Rightarrow> item\<lparr>item_ItemID := xe_Text el\<rparr>
           | AtomLinkField \<Rightarrow>
               item\<lparr>item_AtomLinkHref := unmarshalHref (xe_Attr el) (item_AtomLinkHref item)\<rparr>))"

definition unmarshalItem :: "XmlElement list \<Rightarrow> Item" where
  "unmarshalItem children =
     foldl unmarshalChild
       \<lparr>item_Title = [], item_Link = [], item_GUID = [], item_ItemID = [],
        item_AtomLinkHref = []\<rparr> children"

definition decodeItems ::
  "(string \<Rightarrow> string + XmlElement list list) \<Rightarrow> string \<Rightarrow> string + Item list" where
  \<comment> \<open>\<^verbatim>\<open>decodeXML\<close> at the type \<^verbatim>\<open>RSS\<close>, given the reading of a body as the items of its
      channel, each item as the list of its child elements\<close>
  "decodeItems readItems body =
     (case readItems body of
        Inl e \<Rightarrow> Inl e
      | Inr items \<Rightarrow> Inr (map unmarshalItem items))"

section \<open>The external link resolver\<close>

definition isRedditHost :: "string \<Rightarrow> bool" where
  "isRedditHost host =
     (if host = ''redd.it'' then True
      else HasSuffix host ''.reddit.com'' \<or> host = ''reddit.com''
         \<or> HasSuffix host ''.redditmedia.com'' \<or> host = ''redditmedia.com'')"

text \<open>
  The loop over the attributes of one anchor tag: \<open>Some h\<close> when the loop returns
  \<open>h, true\<close>, \<open>None\<close> when it runs to its end.
\<close>

fun scanAttrs :: "Lib \<Rightarrow> Attribute list \<Rightarrow> string option" where
  "scanAttrs L [] = None"
| "scanAttrs L (a # as) =
     (if attr_Key a \<noteq> ''href'' then scanAttrs L as
      else let h = TrimSpace (attr_Val a) in
        if h = [] then scanAttrs L as
        else (case url_Parse L h of
                None \<Rightarrow> scanAttrs L as
              | Some u \<Rightarrow>
                  if url_Scheme u \<noteq> ''http'' \<and> url_Scheme u \<noteq> ''https'' then scanAttrs L as
                  else if isRedditHost (ToLower L (url_Host u)) then scanAttrs L as
                  else Some h))"

text \<open>The loop over the token stream; it ends at the first \<^verbatim>\<open>ErrorToken\<close>.\<close>

fun scanTokens :: "Lib \<Rightarrow> Token list \<Rightarrow> string \<times> bool" where
  "scanTokens L [] = ([], False)"
| "scanTokens L (t # ts) =
     (if tok_Type t = ErrorToken then ([], False)
      else if tok_Type t = StartTagToken \<or> tok_Type t = SelfClosingTagToken then
        (if tok_Data t \<noteq> ''a'' then scanTokens L ts
         else (case scanAttrs L (tok_Attr t) of
                 Some h \<Rightarrow> (h, True)
               | None \<Rightarrow> scanTokens L ts))
      else scanTokens L ts)"

definition externalFromContent :: "Lib \<Rightarrow> string \<Rightarrow> string \<times> bool" where
  "externalFromContent L escaped =
     (if TrimSpace escaped = [] then ([], False)
      else let raw = UnescapeString L escaped in scanTokens L (Tokenizer L raw))"

section \<open>Fetching and parsing one feed\<close>

text \<open>
  The errors that \<^verbatim>\<open>ParseRSSFeed\<close> and \<^verbatim>\<open>runParsers\<close> return, one constructor for
  each \<^verbatim>\<open>fmt.Errorf\<close> and each error handed on; the argument is the wrapped error's
  text or the formatted value. \<open>NilResponse\<close> stands for the nil dereference that
  reading a response which was never assigned would be.
\<close>

datatype error =
    CreateRequestFailed string
  | RequestFailedAfterRetries string
  | UnexpectedStatusCode int
  | ReadBodyFailed string
  | ParseSlashdotFailed string
  | ParseAtomFailed string
  | ParseRSSFailed string
  | NoNewsReleasesFound
  | NilResponse
  | EnvNotSet string
  | InvalidSmtpPort string
  | SendFailed string
  | MarkPublishedFailed string

record Request =
  req_Method :: string
  req_URL :: string
  req_Header :: "string \<rightharpoonup> string"

record Response =
  resp_StatusCode :: int
  resp_Body :: "string + string"

text \<open>
  The network is a parameter: the error of \<^verbatim>\<open>http.NewRequestWithContext\<close> for an
  address, if any, and the outcome of the \<open>i\<close>-th call of \<^verbatim>\<open>client.Do\<close> on a request
  (\<open>Inl\<close> its error, \<open>Inr\<close> the response, whose \<open>resp_Body\<close> is what \<^verbatim>\<open>io.ReadAll\<close>
  returns on it).
\<close>

record Net =
  NewRequestError :: "string \<Rightarrow> string option"
  client_Do :: "Request \<Rightarrow> nat \<Rightarrow> string + Response"

text \<open>What the fetch does besides returning: the calls of \<^verbatim>\<open>client.Do\<close> and the sleeps,
  in milliseconds, in the order they happen.\<close>

datatype effect = Do nat | Sleep nat

definition maxRetries :: nat where
  "maxRetries = 3"

record fetchState =
  fs_resp :: "Response option"
  fs_err :: "string option"
  fs_trace :: "effect list"

function fetchLoop :: "(nat \<Rightarrow> string + Response) \<Rightarrow> nat \<Rightarrow> fetchState \<Rightarrow> fetchState" where
  "fetchLoop call i st =
     (if i < maxRetries then
        (case call i of
           Inr resp \<Rightarrow>
             st\<lparr>fs_resp := Some resp, fs_err := None, fs_trace := fs_trace st @ [Do i]\<rparr>
         | Inl err \<Rightarrow>
             let st1 = st\<lparr>fs_resp := None, fs_err := Some err,
                           fs_trace := fs_trace st @ [Do i]\<rparr>;
                 st2 = (if i < maxRetries - 1
                        then st1\<lparr>fs_trace := fs_trace st1 @ [Sleep (500 * 2 ^ i)]\<rparr>
                        else st1)
             in fetchLoop call (i + 1) st2)
      else st)"
  by pat_completeness auto
termination
  by (relation "measure (\<lambda>(call, i, st). maxRetries - i)") auto

declare fetchLoop.simps [simp del]

definition selectUserAgent :: "Agents \<Rightarrow> string \<Rightarrow> string" where
  "selectUserAgent userAgents agent =
     (if agent = ''chrome'' then agent_Chrome userAgents
      else if agent = ''reader'' then agent_Reader userAgents
      else if agent = ''bot'' then agent_Bot userAgents
      else agent_Bot userAgents)"

definition buildRequest :: "Agents \<Rightarrow> FeedConfig \<Rightarrow> Request" where
  "buildRequest userAgents feed =
     (let h0 = [''User-Agent'' \<mapsto> selectUserAgent userAgents (feed_Agent feed),
                ''Accept'' \<mapsto>
                  ''application/rss+xml, application/atom+xml, application/xml, text/xml, */*'',
                ''Accept-Language'' \<mapsto> ''en-US,en;q=0.9'',
                ''Cache-Control'' \<mapsto> ''no-cache''];
          h1 = (if feed_EnhancedHeaders feed
                then h0(''Sec-Fetch-Dest'' \<mapsto> ''document'',
                        ''Sec-Fetch-Mode'' \<mapsto> ''navigate'',
                        ''Sec-Fetch-Site'' \<mapsto> ''none'')
                else h0)
      in \<lparr>req_Method = ''GET'', req_URL = feed_URL feed, req_Header = h1\<rparr>)"

subsection \<open>The three item loops\<close>

definition slashdotItem :: "Lib \<Rightarrow> FeedConfig \<Rightarrow> SlashdotItem \<Rightarrow> MainStruct option" where
  \<comment> \<open>one pass of the Slashdot loop: \<open>None\<close> is \<^verbatim>\<open>continue\<close>, \<open>Some post\<close> the appended post\<close>
  "slashdotItem L feed item =
     (let title = UnescapeString L (TrimSpace (sd_Title item)) in
      if title = [] \<or> sd_Link item = [] then None
      else Some \<lparr>GUID = sd_Link item, Title = title,
                  Header = feed_Header feed, Link = sd_Link item\<rparr>)"

definition atomEntry :: "Lib \<Rightarrow> string \<Rightarrow> FeedConfig \<Rightarrow> AtomEntry \<Rightarrow> MainStruct option" where
  \<comment> \<open>one pass of the Atom loop; \<open>h\<close> is the header without spaces\<close>
  "atomEntry L h feed entry =
     (let title = TrimSpace (entry_Title entry) in
      if title = [] then None
      else
        let link0 = TrimSpace (entry_LinkHref entry);
            (ext, ok) = externalFromContent L (entry_Content entry);
            link = (if ok then ext else link0);
            candidate = TrimSpace (entry_ID entry)
        in if candidate \<noteq> [] then
             Some \<lparr>GUID = (if h \<noteq> [] then h @ '':'' @ candidate else candidate),
                   Title = title, Header = feed_Header feed, Link = link\<rparr>
           else if link \<noteq> [] then
             Some \<lparr>GUID = link, Title = title, Header = feed_Header feed, Link = link\<rparr>
           else None)"

definition rssLink :: "Item \<Rightarrow> string" where
  \<comment> \<open>the link of an RSS item after the two fallbacks\<close>
  "rssLink item =
     (let link = TrimSpace (item_Link item);
          link = (if link = [] \<and> item_AtomLinkHref item \<noteq> []
                  then TrimSpace (item_AtomLinkHref item) else link);
          link = (if link = [] \<and> TrimSpace (item_GUID item) \<noteq> []
                  then TrimSpace (item_GUID item) else link)
      in link)"

definition rssItem :: "string \<Rightarrow> FeedConfig \<Rightarrow> Item \<Rightarrow> MainStruct option" where
  \<comment> \<open>one pass of the RSS loop; \<open>h\<close> is the header without spaces\<close>
  "rssItem h feed item =
     (let title = TrimSpace (item_Title item);
          link = rssLink item
      in if title = [] \<or> link = [] then None
         else
           let candidate = TrimSpace (item_GUID item);
               candidate = (if candidate = [] then TrimSpace (item_ItemID item) else candidate)
           in Some \<lparr>GUID = (if candidate \<noteq> []
                             then (if h \<noteq> [] then h @ '':'' @ candidate else candidate)
                             else link),
                    Title = title, Header = feed_Header feed, Link = link\<rparr>)"

text \<open>
  Each loop runs over the decoded items in order and appends the posts that are
  not skipped to \<open>posts\<close>.
\<close>

fun slashdotLoop ::
  "Lib \<Rightarrow> FeedConfig \<Rightarrow> SlashdotItem list \<Rightarrow> MainStruct list \<Rightarrow> MainStruct list" where
  "slashdotLoop L feed [] posts = posts"
| "slashdotLoop L feed (item # items) posts =
     slashdotLoop L feed items
       (case slashdotItem L feed item of None \<Rightarrow> posts | Some post \<Rightarrow> posts @ [post])"

fun atomLoop ::
  "Lib \<Rightarrow> string \<Rightarrow> FeedConfig \<Rightarrow> AtomEntry list \<Rightarrow> MainStruct list \<Rightarrow> MainStruct list" where
  "atomLoop L h feed [] posts = posts"
| "atomLoop L h feed (entry # entries) posts =
     atomLoop L h feed entries
       (case atomEntry L h feed entry of None \<Rightarrow> posts | Some post \<Rightarrow> posts @ [post])"

fun rssLoop :: "string \<Rightarrow> FeedConfig \<Rightarrow> Item list \<Rightarrow> MainStruct list \<Rightarrow> MainStruct list" where
  "rssLoop h feed [] posts = posts"
| "rssLoop h feed (item # items) posts =
     rssLoop h feed items
       (case rssItem h feed item of None \<Rightarrow> posts | Some post \<Rightarrow> posts @ [post])"

subsection \<open>\<^verbatim>\<open>ParseRSSFeed\<close>\<close>

definition parseBody :: "Lib \<Rightarrow> FeedConfig \<Rightarrow> string \<Rightarrow> error + MainStruct list" where
  \<comment> \<open>from \<^verbatim>\<open>var posts\<close> to the end of \<^verbatim>\<open>ParseRSSFeed\<close>\<close>
  "parseBody L feed body =
     (let decoded =
        (if feed_Header feed = ''Slashdot'' then
           (case decodeSlashdotRDF L body of
              Inl e \<Rightarrow> Inl (ParseSlashdotFailed e)
            | Inr items \<Rightarrow> Inr (slashdotLoop L feed items []))
         else if HasPrefix (feed_Header feed) ''r/'' then
           (case decodeAtomFeed L body of
              Inl e \<Rightarrow> Inl (ParseAtomFailed e)
            | Inr entries \<Rightarrow>
                Inr (atomLoop L (removeSpaces (feed_Header feed)) feed entries []))
         else
           (case decodeRSS L body of
              Inl e \<Rightarrow> Inl (ParseRSSFailed e)
            | Inr items \<Rightarrow> Inr (rssLoop (removeSpaces (feed_Header feed)) feed items [])))
      in case decoded of
           Inl e \<Rightarrow> Inl e
         | Inr posts \<Rightarrow> if length posts = 0 then Inl NoNewsReleasesFound else Inr posts)"

definition readResponse :: "Lib \<Rightarrow> FeedConfig \<Rightarrow> Response \<Rightarrow> error + MainStruct list" where
  \<comment> \<open>from the check of the status code to the end of \<^verbatim>\<open>ParseRSSFeed\<close>\<close>
  "readResponse L feed resp =
     (if resp_StatusCode resp \<noteq> 200 then Inl (UnexpectedStatusCode (resp_StatusCode resp))
      else (case resp_Body resp of
              Inl e \<Rightarrow> Inl (ReadBodyFailed e)
            | Inr body \<Rightarrow> parseBody L feed body))"

definition ParseRSSFeed ::
  "Net \<Rightarrow> Lib \<Rightarrow> Agents \<Rightarrow> FeedConfig \<Rightarrow> (error + MainStruct list) \<times> effect list" where
  "ParseRSSFeed N L userAgents feed =
     (case NewRequestError N (feed_URL feed) of
        Some e \<Rightarrow> (Inl (CreateRequestFailed e), [])
      | None \<Rightarrow>
          let req = buildRequest userAgents feed;
              st = fetchLoop (client_Do N req) 0 \<lparr>fs_resp = None, fs_err = None, fs_trace = []\<rparr>
          in (case fs_err st of
                Some e \<Rightarrow> (Inl (RequestFailedAfterRetries e), fs_trace st)
              | None \<Rightarrow>
                  (case fs_resp st of
                     None \<Rightarrow> (Inl NilResponse, fs_trace st)
                   | Some resp \<Rightarrow> (readResponse L feed resp, fs_trace st))))"

section \<open>The orchestrator\<close>

text \<open>
  What \<^verbatim>\<open>main.go\<close> calls outside itself is a parameter of the model: the environment
  (\<^verbatim>\<open>os.Getenv\<close>, \<^verbatim>\<open>strconv.Atoi\<close>), the configured feeds (\<^verbatim>\<open>feeds.Feeds\<close>), the
  network and the parsing library of the previous sections, the store
  (\<^verbatim>\<open>dynamo.IsArticlePublished\<close>: the outcome of the \<open>k\<close>-th lookup made for feed \<open>i\<close>,
  \<open>Inl\<close> its error; \<^verbatim>\<open>dynamo.BatchMarkPublished\<close>), the two senders (the first
  argument is the attempt's number), \<^verbatim>\<open>tools.GetEmojis\<close>, \<^verbatim>\<open>html.EscapeString\<close>, the hour
  of the wall clock, and the three \<^verbatim>\<open>fmt.Sprintf\<close> templates with the separator of
  \<^verbatim>\<open>buildEmailHTML\<close> (\<open>ItemTemplate link display\<close>, \<open>PageTemplate subject body\<close>,
  \<open>SubjectLine count hour\<close>). Log lines are not modelled.
\<close>

record World =
  Getenv :: "string \<Rightarrow> string"
  Atoi :: "string \<Rightarrow> string + int"
  Feeds :: "FeedConfig list"
  net :: Net
  lib :: Lib
  IsArticlePublished :: "nat \<Rightarrow> nat \<Rightarrow> string \<Rightarrow> string + bool"
  BatchMarkPublished :: "MainStruct list \<Rightarrow> string option"
  SendToEmail :: "nat \<Rightarrow> string \<Rightarrow> string \<Rightarrow> string \<Rightarrow> int \<Rightarrow> string \<Rightarrow> string \<Rightarrow> string option"
  SendToTelegram :: "nat \<Rightarrow> MainStruct list \<Rightarrow> string \<Rightarrow> string \<Rightarrow> string option"
  GetEmojis :: "string \<Rightarrow> string"
  EscapeString :: "string \<Rightarrow> string"
  NowHour :: nat
  ItemTemplate :: "string \<Rightarrow> string \<Rightarrow> string"
  PageTemplate :: "string \<Rightarrow> string \<Rightarrow> string"
  SubjectLine :: "nat \<Rightarrow> nat \<Rightarrow> string"
  Separator :: string

subsection \<open>\<^verbatim>\<open>collectUnpublished\<close>\<close>

fun Join :: "string list \<Rightarrow> string \<Rightarrow> string" where
  "Join [] sep = []"
| "Join [x] sep = x"
| "Join (x # y # ys) sep = x @ sep @ Join (y # ys) sep"

definition formatPost :: "World \<Rightarrow> MainStruct \<Rightarrow> string" where
  \<comment> \<open>the inlined \<^verbatim>\<open>FormatPost\<close> logic: the HTML snippet of one article\<close>
  "formatPost W art =
     (let emojis = TrimSpace (GetEmojis W (Title art));
          header = EscapeString W (Header art);
          title = EscapeString W (Title art);
          link = EscapeString W (Link art);
          parts = [];
          parts = (if emojis \<noteq> [] then parts @ [emojis] else parts);
          parts = (if header \<noteq> [] then parts @ [''<b>'' @ header @ ''</b>:''] else parts);
          parts = parts @ [title];
          display = Join parts '' ''
      in ItemTemplate W link display)"

text \<open>
  The loop of \<^verbatim>\<open>collectUnpublished\<close>: \<open>lookup k guid\<close> is the outcome of the \<open>k\<close>-th
  call of \<^verbatim>\<open>IsArticlePublished\<close>, and \<open>k\<close> counts the articles already passed.
\<close>

fun collectLoop ::
  "World \<Rightarrow> (nat \<Rightarrow> string \<Rightarrow> string + bool) \<Rightarrow> string \<Rightarrow> nat \<Rightarrow> MainStruct list
     \<Rightarrow> MainStruct list \<Rightarrow> MainStruct list" where
  "collectLoop W lookup envTarget k [] toPublish = toPublish"
| "collectLoop W lookup envTarget k (art # arts) toPublish =
     (case lookup k (GUID art) of
        Inl err \<Rightarrow> collectLoop W lookup envTarget (Suc k) arts toPublish
      | Inr pub \<Rightarrow>
          if pub then collectLoop W lookup envTarget (Suc k) arts toPublish
          else if envTarget = ''email'' then
            (if Title art = [] then collectLoop W lookup envTarget (Suc k) arts toPublish
             else collectLoop W lookup envTarget (Suc k) arts
                    (toPublish @ [\<lparr>GUID = GUID art, Title = formatPost W art,
                                    Header = [], Link = []\<rparr>]))
          else collectLoop W lookup envTarget (Suc k) arts (toPublish @ [art]))"

definition collectUnpublished ::
  "World \<Rightarrow> (nat \<Rightarrow> string \<Rightarrow> string + bool) \<Rightarrow> MainStruct list \<Rightarrow> string
     \<Rightarrow> MainStruct list \<times> error option" where
  "collectUnpublished W lookup articles envTarget =
     (collectLoop W lookup envTarget 0 articles [], None)"

subsection \<open>Fan-out and fan-in\<close>

record feedResult =
  Articles :: "MainStruct list"
  Err :: "error option"

definition feedTask ::
  "World \<Rightarrow> Agents \<Rightarrow> string \<Rightarrow> nat \<Rightarrow> FeedConfig \<Rightarrow> feedResult \<Rightarrow> feedResult" where
  \<comment> \<open>the goroutine of feed \<open>i\<close>, as the update of its slot \<^verbatim>\<open>results[i]\<close>\<close>
  "feedTask W userAgents envTarget i fc slot =
     (case fst (ParseRSSFeed (net W) (lib W) userAgents fc) of
        Inl err \<Rightarrow> slot\<lparr>Err := Some err\<rparr>
      | Inr articles \<Rightarrow>
          (case collectUnpublished W (IsArticlePublished W i) articles envTarget of
             (toPub, Some err) \<Rightarrow> slot\<lparr>Err := Some err\<rparr>
           | (toPub, None) \<Rightarrow> slot\<lparr>Articles := toPub\<rparr>))"

text \<open>
  The goroutines finish in some order; \<open>order\<close> lists the feeds' indices in the order
  their goroutines write their slots. An index that belongs to no feed names no
  goroutine and writes nothing.
\<close>

fun fanIn ::
  "(nat \<Rightarrow> FeedConfig \<Rightarrow> feedResult \<Rightarrow> feedResult) \<Rightarrow> FeedConfig list \<Rightarrow> nat list
     \<Rightarrow> feedResult list \<Rightarrow> feedResult list" where
  "fanIn task feeds [] results = results"
| "fanIn task feeds (i # order) results =
     fanIn task feeds order
       (if i < length feeds then results[i := task i (feeds ! i) (results ! i)] else results)"

subsection \<open>Aggregation\<close>

text \<open>
  \<^verbatim>\<open>seen\<close> is a Go \<^verbatim>\<open>map[string]bool\<close>: reading a key that is absent gives \<^verbatim>\<open>false\<close>.
\<close>

definition readSeen :: "(string \<rightharpoonup> bool) \<Rightarrow> string \<Rightarrow> bool" where
  "readSeen seen g = (case seen g of None \<Rightarrow> False | Some b \<Rightarrow> b)"

fun mergeArticles ::
  "MainStruct list \<Rightarrow> (string \<rightharpoonup> bool) \<times> MainStruct list
     \<Rightarrow> (string \<rightharpoonup> bool) \<times> MainStruct list" where
  "mergeArticles [] (seen, allToPublish) = (seen, allToPublish)"
| "mergeArticles (art # arts) (seen, allToPublish) =
     (if readSeen seen (GUID art) then mergeArticles arts (seen, allToPublish)
      else mergeArticles arts (seen(GUID art \<mapsto> True), allToPublish @ [art]))"

fun mergeResults ::
  "feedResult list \<Rightarrow> (string \<rightharpoonup> bool) \<times> MainStruct list
     \<Rightarrow> (string \<rightharpoonup> bool) \<times> MainStruct list" where
  "mergeResults [] st = st"
| "mergeResults (res # results) st =
     (if Err res \<noteq> None then mergeResults results st
      else mergeResults results (mergeArticles (Articles res) st))"

definition aggregate :: "feedResult list \<Rightarrow> MainStruct list" where
  "aggregate results = snd (mergeResults results (Map.empty, []))"

subsection \<open>\<^verbatim>\<open>runParsers\<close>\<close>

record Config =
  cfg_envTarget :: string
  cfg_email :: string
  cfg_telegramBot :: string
  cfg_telegramChannel :: string
  cfg_smtpHost :: string
  cfg_smtpPort :: int
  cfg_smtpPass :: string

definition loadEnv :: "World \<Rightarrow> error + Config" where
  "loadEnv W =
     (if Getenv W ''TARGET'' = [] then Inl (EnvNotSet ''TARGET'')
      else if Getenv W ''MAIN_EMAIL'' = [] then Inl (EnvNotSet ''MAIN_EMAIL'')
      else if Getenv W ''TELEGRAM_BOT'' = [] then Inl (EnvNotSet ''TELEGRAM_BOT'')
      else if Getenv W ''TELEGRAM_CHANNEL'' = [] then Inl (EnvNotSet ''TELEGRAM_CHANNEL'')
      else if Getenv W ''SMTP_HOST'' = [] then Inl (EnvNotSet ''SMTP_HOST'')
      else if Getenv W ''SMTP_PORT'' = [] then Inl (EnvNotSet ''SMTP_PORT'')
      else (case Atoi W (Getenv W ''SMTP_PORT'') of
              Inl e \<Rightarrow> Inl (InvalidSmtpPort e)
            | Inr smtpPort \<Rightarrow>
                if Getenv W ''SMTP_PASS'' = [] then Inl (EnvNotSet ''SMTP_PASS'')
                else Inr \<lparr>cfg_envTarget = Getenv W ''TARGET'',
                          cfg_email = Getenv W ''MAIN_EMAIL'',
                          cfg_telegramBot = Getenv W ''TELEGRAM_BOT'',
                          cfg_telegramChannel = Getenv W ''TELEGRAM_CHANNEL'',
                          cfg_smtpHost = Getenv W ''SMTP_HOST'',
                          cfg_smtpPort = smtpPort,
                          cfg_smtpPass = Getenv W ''SMTP_PASS''\<rparr>))"

definition makeUserAgents :: "string \<Rightarrow> Agents" where
  "makeUserAgents email =
     \<lparr>agent_Bot = ''headlines_bot/1.0 (+https://github.com/vctrla; '' @ email @ '')'',
      agent_Chrome = ''Mozilla/5.0 (Macintosh; Intel Mac OS X 10_15_7) AppleWebKit/537.36 (KHTML, like Gecko) Chrome/139.0.0.0 Safari/537.36'',
      agent_Reader = ''RSSReader/1.0 (+https://github.com/vctrla; '' @ email @ '')''\<rparr>"

definition buildEmailHTML :: "World \<Rightarrow> string list \<Rightarrow> string \<Rightarrow> string" where
  "buildEmailHTML W items subject =
     (let sep = Separator W;
          bodyContent = sep @ Join items sep @ sep
      in PageTemplate W subject bodyContent)"

text \<open>What the delivery does, in order: the sends, the waits in seconds, the marking.\<close>

datatype action =
    EmailSent nat string string
  | TelegramSent nat "MainStruct list"
  | Waited nat
  | Marked "MainStruct list"

definition maxSendRetries :: nat where
  "maxSendRetries = 2"

function sendLoop ::
  "World \<Rightarrow> Config \<Rightarrow> string \<Rightarrow> string \<Rightarrow> MainStruct list \<Rightarrow> nat
     \<Rightarrow> string option \<times> action list \<Rightarrow> string option \<times> action list" where
  "sendLoop W cfg subject htmlBody allToPublish attempt (sendErr, acts) =
     (if attempt \<le> maxSendRetries then
        (let (sendErr', act) =
               (if cfg_envTarget cfg = ''email''
                then (SendToEmail W attempt (cfg_email cfg) subject (cfg_smtpHost cfg)
                        (cfg_smtpPort cfg) (cfg_smtpPass cfg) htmlBody,
                      EmailSent attempt subject htmlBody)
                else (SendToTelegram W attempt allToPublish (cfg_telegramBot cfg)
                        (cfg_telegramChannel cfg),
                      TelegramSent attempt allToPublish))
         in if sendErr' = None then (sendErr', acts @ [act])
            else sendLoop W cfg subject htmlBody allToPublish (attempt + 1)
                   (sendErr',
                    if attempt < maxSendRetries then acts @ [act, Waited attempt]
                    else acts @ [act]))
      else (sendErr, acts))"
  by pat_completeness auto
termination
  by (relation "measure (\<lambda>(W, cfg, subject, htmlBody, allToPublish, attempt, st).
        Suc maxSendRetries - attempt)") auto

declare sendLoop.simps [simp del]

definition deliver :: "World \<Rightarrow> Config \<Rightarrow> MainStruct list \<Rightarrow> error option \<times> action list" where
  \<comment> \<open>\<^verbatim>\<open>runParsers\<close> from the subject line to its end\<close>
  "deliver W cfg allToPublish =
     (let subject = SubjectLine W (length allToPublish) (NowHour W);
          htmlBody = (if cfg_envTarget cfg = ''email''
                      then buildEmailHTML W (map Title allToPublish) subject else []);
          (sendErr, acts) = sendLoop W cfg subject htmlBody allToPublish 1 (None, [])
      in case sendErr of
           Some e \<Rightarrow> (Some (SendFailed e), acts)
         | None \<Rightarrow>
             (case BatchMarkPublished W allToPublish of
                Some e \<Rightarrow> (Some (MarkPublishedFailed e), acts @ [Marked allToPublish])
              | None \<Rightarrow> (None, acts @ [Marked allToPublish])))"

definition runTasks :: "World \<Rightarrow> Config \<Rightarrow> nat list \<Rightarrow> feedResult list" where
  \<comment> \<open>\<^verbatim>\<open>results\<close> once \<^verbatim>\<open>wg.Wait()\<close> has returned\<close>
  "runTasks W cfg order =
     fanIn (feedTask W (makeUserAgents (cfg_email cfg)) (cfg_envTarget cfg)) (Feeds W) order
       (replicate (length (Feeds W)) \<lparr>Articles = [], Err = None\<rparr>)"

definition runParsers :: "World \<Rightarrow> nat list \<Rightarrow> error option \<times> action list" where
  "runParsers W order =
     (case loadEnv W of
        Inl e \<Rightarrow> (Some e, [])
      | Inr cfg \<Rightarrow>
          let results = runTasks W cfg order;
              allToPublish = aggregate results
          in if length allToPublish = 0 then (None, [])
             else deliver W cfg allToPublish)"

section \<open>Reference definitions\<close>

text \<open>
  The words of the specification for the link resolver, to compare the loops of
  \<^verbatim>\<open>externalFromContent\<close> with: the anchors of a token stream are its start tags and
  self-closing tags named \<open>a\<close>, up to the first \<^verbatim>\<open>ErrorToken\<close>; their candidate links
  are the trimmed values of their \<^verbatim>\<open>href\<close> attributes, in the order of the stream; a
  candidate is usable when it is not empty, parses as a URL of scheme \<open>http\<close> or
  \<open>https\<close>, and its lower-cased host is no Reddit host.
\<close>

definition isAnchor :: "Token \<Rightarrow> bool" where
  "isAnchor t \<longleftrightarrow>
     (tok_Type t = StartTagToken \<or> tok_Type t = SelfClosingTagToken) \<and> tok_Data t = ''a''"

definition hrefsOf :: "Token \<Rightarrow> string list" where
  "hrefsOf t =
     map (\<lambda>a. TrimSpace (attr_Val a)) (filter (\<lambda>a. attr_Key a = ''href'') (tok_Attr t))"

definition anchorHrefs :: "Token list \<Rightarrow> string list" where
  "anchorHrefs ts =
     concat (map hrefsOf (filter isAnchor (takeWhile (\<lambda>t. tok_Type t \<noteq> ErrorToken) ts)))"

definition usableHref :: "Lib \<Rightarrow> string \<Rightarrow> bool" where
  "usableHref L h \<longleftrightarrow>
     h \<noteq> [] \<and>
     (case url_Parse L h of
        None \<Rightarrow> False
      | Some u \<Rightarrow> (url_Scheme u = ''http'' \<or> url_Scheme u = ''https'')
                  \<and> \<not> isRedditHost (ToLower L (url_Host u)))"

text \<open>
  For the aggregation: the GUIDs that \<^verbatim>\<open>seen\<close> holds as \<^verbatim>\<open>true\<close>; the articles of the
  feeds that did not fail, in the order the feeds are declared; the articles of a
  list whose GUID is not in \<open>S\<close> and did not occur earlier in the list; and the
  position of the first article of a list that has a given GUID (the length of the
  list when there is none).
\<close>

definition seenSet :: "(string \<rightharpoonup> bool) \<Rightarrow> string set" where
  "seenSet seen = {g. readSeen seen g}"

definition allArticles :: "feedResult list \<Rightarrow> MainStruct list" where
  "allArticles results = concat (map Articles (filter (\<lambda>res. Err res = None) results))"

fun firstByGUID :: "string set \<Rightarrow> MainStruct list \<Rightarrow> MainStruct list" where
  "firstByGUID S [] = []"
| "firstByGUID S (a # as) =
     (if GUID a \<in> S then firstByGUID S as else a # firstByGUID (insert (GUID a) S) as)"

definition guidIndex :: "string \<Rightarrow> MainStruct list \<Rightarrow> nat" where
  "guidIndex g arts = length (takeWhile (\<lambda>a. GUID a \<noteq> g) arts)"

text \<open>
  For \<^verbatim>\<open>collectUnpublished\<close>: what one pass of its loop appends for an article, given
  the outcome of the lookup.
\<close>

definition keptForm :: "World \<Rightarrow> string \<Rightarrow> string + bool \<Rightarrow> MainStruct \<Rightarrow> MainStruct list" where
  "keptForm W envTarget outcome art =
     (case outcome of
        Inl err \<Rightarrow> []
      | Inr pub \<Rightarrow>
          if pub then []
          else if envTarget = ''email'' then
            (if Title art = [] then []
             else [\<lparr>GUID = GUID art, Title = formatPost W art, Header = [], Link = []\<rparr>])
          else [art])"

section \<open>Example inputs\<close>

text \<open>Concrete feeds, items and library functions, on which the theorems are run.\<close>

definition exampleFeed :: FeedConfig where
  "exampleFeed = \<lparr>feed_URL = ''https://x.test/rss'', feed_Header = ''Example News'',
                   feed_Agent = ''reader'', feed_EnhancedHeaders = False\<rparr>"

definition itemWithGuid :: Item where
  "itemWithGuid = \<lparr>item_Title = '' First '', item_Link = '' https://x.test/first '',
                    item_GUID = '' g1 '', item_ItemID = [], item_AtomLinkHref = []\<rparr>"

definition exampleItem2 :: Item where
  "exampleItem2 = \<lparr>item_Title = ''Second'', item_Link = [], item_GUID = '' '',
                    item_ItemID = [], item_AtomLinkHref = []\<rparr>"

definition exampleItem3 :: Item where
  "exampleItem3 = \<lparr>item_Title = ''Third'', item_Link = ''https://x.test/a'', item_GUID = [],
                    item_ItemID = [], item_AtomLinkHref = []\<rparr>"

definition exampleAgents :: Agents where
  "exampleAgents = makeUserAgents ''me@x.test''"

definition redditFeed :: FeedConfig where
  "redditFeed = \<lparr>feed_URL = ''https://www.reddit.com/r/x/.rss'', feed_Header = ''r/x'',
                  feed_Agent = ''chrome'', feed_EnhancedHeaders = True\<rparr>"

definition entryWithoutLink :: AtomEntry where
  "entryWithoutLink = \<lparr>entry_Title = ''T'', entry_LinkHref = [], entry_ID = ''id1'',
                        entry_Content = []\<rparr>"

text \<open>
  A library whose decoders read the body \<open>''atom''\<close> as a feed of the one entry above
  and the body \<open>''rss''\<close> as a channel of the one item \<open>exampleItem2\<close>.
\<close>

definition exampleLib :: Lib where
  "exampleLib = \<lparr>UnescapeString = (\<lambda>s. s), Tokenizer = (\<lambda>raw. []), url_Parse = (\<lambda>h. None),
     ToLower = (\<lambda>s. s),
     decodeSlashdotRDF = (\<lambda>body. Inl ''EOF''),
     decodeAtomFeed = (\<lambda>body. if body = ''atom'' then Inr [entryWithoutLink] else Inl ''EOF''),
     decodeRSS = (\<lambda>body. if body = ''rss'' then Inr [exampleItem2] else Inl ''EOF'')\<rparr>"

text \<open>A network that answers at once, and one whose first call fails.\<close>

definition netReturning :: "int \<Rightarrow> string \<Rightarrow> Net" where
  "netReturning status body =
     \<lparr>NewRequestError = (\<lambda>url. None),
      client_Do = (\<lambda>req i. Inr \<lparr>resp_StatusCode = status, resp_Body = Inr body\<rparr>)\<rparr>"

definition flakyNet :: Net where
  "flakyNet =
     \<lparr>NewRequestError = (\<lambda>url. None),
      client_Do = (\<lambda>req i. if i = 0 then Inl ''timeout''
                             else Inr \<lparr>resp_StatusCode = 500, resp_Body = Inr []\<rparr>)\<rparr>"

text \<open>
  The content of a Reddit entry with a link to Reddit and a link to another site,
  and a library that un-escapes, tokenizes and parses it.
\<close>

definition exampleContent :: string where
  "exampleContent =
     ''&lt;a href=https://reddit.com/r/x&gt;in&lt;/a&gt; &lt;a href=https://news.test/y&gt;out&lt;/a&gt;''"

definition exampleRaw :: string where
  "exampleRaw = ''<a href=https://reddit.com/r/x>in</a> <a href=https://news.test/y>out</a>''"

definition exampleTokens :: "Token list" where
  "exampleTokens =
     [\<lparr>tok_Type = StartTagToken, tok_Data = ''a'',
       tok_Attr = [\<lparr>attr_Key = ''href'', attr_Val = ''https://reddit.com/r/x''\<rparr>]\<rparr>,
      \<lparr>tok_Type = TextToken, tok_Data = ''in'', tok_Attr = []\<rparr>,
      \<lparr>tok_Type = EndTagToken, tok_Data = ''a'', tok_Attr = []\<rparr>,
      \<lparr>tok_Type = TextToken, tok_Data = '' '', tok_Attr = []\<rparr>,
      \<lparr>tok_Type = StartTagToken, tok_Data = ''a'',
       tok_Attr = [\<lparr>attr_Key = ''href'', attr_Val = ''https://news.test/y''\<rparr>]\<rparr>,
      \<lparr>tok_Type = TextToken, tok_Data = ''out'', tok_Attr = []\<rparr>,
      \<lparr>tok_Type = EndTagToken, tok_Data = ''a'', tok_Attr = []\<rparr>]"

definition htmlLib :: Lib where
  "htmlLib = \<lparr>UnescapeString = (\<lambda>s. if s = exampleContent then exampleRaw else s),
     Tokenizer = (\<lambda>raw. if raw = exampleRaw then exampleTokens else []),
     url_Parse = (\<lambda>h. if h = ''https://reddit.com/r/x''
                         then Some \<lparr>url_Scheme = ''https'', url_Host = ''reddit.com''\<rparr>
                       else if h = ''https://news.test/y''
                         then Some \<lparr>url_Scheme = ''https'', url_Host = ''news.test''\<rparr>
                       else None),
     ToLower = (\<lambda>s. s),
     decodeSlashdotRDF = (\<lambda>body. Inl ''EOF''),
     decodeAtomFeed = (\<lambda>body. Inl ''EOF''),
     decodeRSS = (\<lambda>body. Inl ''EOF'')\<rparr>"

text \<open>
  The child elements of three RSS items: one with a title, a link and a guid; one
  with a title, a link of its own and, after it, an Atom link; one with a title, an
  Atom link and a guid. \<open>xmlLib\<close> reads the body \<open>''rss-atom''\<close> as the channel of the last
  two.
\<close>

definition xmlText :: "string \<Rightarrow> string \<Rightarrow> XmlElement" where
  "xmlText name text = \<lparr>xe_Space = [], xe_Local = name, xe_Attr = [], xe_Text = text\<rparr>"

definition atomLinkTo :: "string \<Rightarrow> XmlElement" where
  "atomLinkTo href =
     \<lparr>xe_Space = ''http://www.w3.org/2005/Atom'', xe_Local = ''link'',
      xe_Attr = [\<lparr>xa_Space = [], xa_Local = ''href'', xa_Value = href\<rparr>], xe_Text = []\<rparr>"

definition xmlItemWithGuid :: "XmlElement list" where
  "xmlItemWithGuid =
     [xmlText ''title'' '' First '', xmlText ''link'' '' https://x.test/first '',
      xmlText ''guid'' '' g1 '']"

definition xmlItemOwnAndAtomLink :: "XmlElement list" where
  "xmlItemOwnAndAtomLink =
     [xmlText ''title'' ''Own link'', xmlText ''link'' ''https://x.test/a'',
      atomLinkTo ''https://x.test/alt'']"

definition xmlItemAtomLinkOnly :: "XmlElement list" where
  "xmlItemAtomLinkOnly =
     [xmlText ''title'' ''Atom link only'', atomLinkTo ''https://x.test/alt'',
      xmlText ''guid'' ''https://x.test/g'']"

definition xmlLib :: Lib where
  "xmlLib = \<lparr>UnescapeString = (\<lambda>s. s), Tokenizer = (\<lambda>raw. []), url_Parse = (\<lambda>h. None),
     ToLower = (\<lambda>s. s),
     decodeSlashdotRDF = (\<lambda>body. Inl ''EOF''),
     decodeAtomFeed = (\<lambda>body. Inl ''EOF''),
     decodeRSS = decodeItems (\<lambda>body. if body = ''rss-atom''
                                       then Inr [xmlItemOwnAndAtomLink, xmlItemAtomLinkOnly]
                                       else Inl ''EOF'')\<rparr>"

text \<open>
  Two Reddit entries of the feed \<open>r/ask science\<close>: one with an id and a link, one with
  a blank id whose content is \<open>exampleContent\<close>.
\<close>

definition askScienceFeed :: FeedConfig where
  "askScienceFeed = \<lparr>feed_URL = ''https://www.reddit.com/r/askscience/.rss'',
                      feed_Header = ''r/ask science'', feed_Agent = ''chrome'',
                      feed_EnhancedHeaders = True\<rparr>"

definition entryWithId :: AtomEntry where
  "entryWithId = \<lparr>entry_Title = '' Why is the sky blue? '',
                   entry_LinkHref = ''https://www.reddit.com/r/askscience/1'',
                   entry_ID = '' t3_1 '', entry_Content = []\<rparr>"

definition entryWithoutId :: AtomEntry where
  "entryWithoutId = \<lparr>entry_Title = ''Seen elsewhere'',
                      entry_LinkHref = ''https://www.reddit.com/r/askscience/2'',
                      entry_ID = '' '', entry_Content = exampleContent\<rparr>"

text \<open>
  The content of a Reddit entry whose only link leads to \<open>reddit.com\<close> and names the
  port 443, and a library that un-escapes, tokenizes and parses it: \<^verbatim>\<open>url.Parse\<close> gives
  the scheme \<open>https\<close> and the \<^verbatim>\<open>Host\<close> \<open>reddit.com:443\<close>.
\<close>

definition portContent :: string where
  "portContent = ''&lt;a href=https://reddit.com:443/r/x&gt;in&lt;/a&gt;''"

definition portRaw :: string where
  "portRaw = ''<a href=https://reddit.com:443/r/x>in</a>''"

definition portTokens :: "Token list" where
  "portTokens =
     [\<lparr>tok_Type = StartTagToken, tok_Data = ''a'',
       tok_Attr = [\<lparr>attr_Key = ''href'', attr_Val = ''https://reddit.com:443/r/x''\<rparr>]\<rparr>,
      \<lparr>tok_Type = TextToken, tok_Data = ''in'', tok_Attr = []\<rparr>,
      \<lparr>tok_Type = EndTagToken, tok_Data = ''a'', tok_Attr = []\<rparr>]"

definition portLib :: Lib where
  "portLib = \<lparr>UnescapeString = (\<lambda>s. if s = portContent then portRaw else s),
     Tokenizer = (\<lambda>raw. if raw = portRaw then portTokens else []),
     url_Parse = (\<lambda>h. if h = ''https://reddit.com:443/r/x''
                         then Some \<lparr>url_Scheme = ''https'', url_Host = ''reddit.com:443''\<rparr>
                       else None),
     ToLower = (\<lambda>s. s),
     decodeSlashdotRDF = (\<lambda>body. Inl ''EOF''),
     decodeAtomFeed = (\<lambda>body. Inl ''EOF''),
     decodeRSS = (\<lambda>body. Inl ''EOF'')\<rparr>"

text \<open>
  A world of three feeds with the header \<open>News\<close>: the first has one item with the guid
  \<open>foo\<close>, the second is answered with the status 500, the third has an item with the
  guid \<open>foo\<close> and one with the guid \<open>bar\<close>. Nothing is published yet, and the target is
  Telegram. In \<open>failingWorld\<close> every feed is answered with the status 500.
\<close>

definition newsItem :: "string \<Rightarrow> string \<Rightarrow> string \<Rightarrow> Item" where
  "newsItem title link guid =
     \<lparr>item_Title = title, item_Link = link, item_GUID = guid, item_ItemID = [],
      item_AtomLinkHref = []\<rparr>"

definition newsFeed :: "string \<Rightarrow> FeedConfig" where
  "newsFeed url = \<lparr>feed_URL = url, feed_Header = ''News'', feed_Agent = ''bot'',
                    feed_EnhancedHeaders = False\<rparr>"

definition exampleWorld :: World where
  "exampleWorld =
     \<lparr>Getenv = (\<lambda>k. if k = ''TARGET'' then ''telegram''
                      else if k = ''SMTP_PORT'' then ''465'' else ''x''),
      Atoi = (\<lambda>s. if s = ''465'' then Inr 465 else Inl ''invalid syntax''),
      Feeds = [newsFeed ''https://a.test/rss'', newsFeed ''https://b.test/rss'',
               newsFeed ''https://c.test/rss''],
      net = \<lparr>NewRequestError = (\<lambda>url. None),
             client_Do = (\<lambda>req i.
               if req_URL req = ''https://b.test/rss''
               then Inr \<lparr>resp_StatusCode = 500, resp_Body = Inr []\<rparr>
               else Inr \<lparr>resp_StatusCode = 200, resp_Body = Inr (req_URL req)\<rparr>)\<rparr>,
      lib = \<lparr>UnescapeString = (\<lambda>s. s), Tokenizer = (\<lambda>raw. []), url_Parse = (\<lambda>h. None),
             ToLower = (\<lambda>s. s),
             decodeSlashdotRDF = (\<lambda>body. Inl ''EOF''),
             decodeAtomFeed = (\<lambda>body. Inl ''EOF''),
             decodeRSS = (\<lambda>body.
               if body = ''https://a.test/rss''
               then Inr [newsItem ''Foo at A'' ''https://a.test/foo'' ''foo'']
               else if body = ''https://c.test/rss''
               then Inr [newsItem ''Foo at C'' ''https://c.test/foo'' ''foo'',
                         newsItem ''Bar at C'' ''https://c.test/bar'' ''bar'']
               else Inl ''EOF'')\<rparr>,
      IsArticlePublished = (\<lambda>i k guid. Inr False),
      BatchMarkPublished = (\<lambda>arts. None),
      SendToEmail = (\<lambda>attempt email subject host port pass body. None),
      SendToTelegram = (\<lambda>attempt arts bot channel. None),
      GetEmojis = (\<lambda>title. []),
      EscapeString = (\<lambda>s. s),
      NowHour = 9,
      ItemTemplate = (\<lambda>link display. display),
      PageTemplate = (\<lambda>subject body. body),
      SubjectLine = (\<lambda>count hour. ''Headlines''),
      Separator = ''--''\<rparr>"

definition exampleConfig :: Config where
  "exampleConfig = \<lparr>cfg_envTarget = ''telegram'', cfg_email = ''x'', cfg_telegramBot = ''x'',
     cfg_telegramChannel = ''x'', cfg_smtpHost = ''x'', cfg_smtpPort = 465, cfg_smtpPass = ''x''\<rparr>"

definition fooAtA :: MainStruct where
  "fooAtA = \<lparr>GUID = ''News:foo'', Title = ''Foo at A'', Header = ''News'', Link = ''https://a.test/foo''\<rparr>"
definition fooAtC :: MainStruct where
  "fooAtC = \<lparr>GUID = ''News:foo'', Title = ''Foo at C'', Header = ''News'', Link = ''https://c.test/foo''\<rparr>"
definition barAtC :: MainStruct where
  "barAtC = \<lparr>GUID = ''News:bar'', Title = ''Bar at C'', Header = ''News'', Link = ''https://c.test/bar''\<rparr>"

definition failingWorld :: World where
  "failingWorld = exampleWorld\<lparr>net := netReturning 500 []\<rparr>"

text \<open>A store whose second lookup fails.\<close>

definition throttledLookup :: "nat \<Rightarrow> string \<Rightarrow> string + bool" where
  "throttledLookup k guid = (if k = 1 then Inl ''throttled'' else Inr False)"

section \<open>Properties of the parsers\<close>

lemma leadingSpace_Nil: "leadingSpace [] = 0"
  by (simp add: leadingSpace_def whiteSpace_def)

lemma trailingSpace_Nil: "trailingSpace [] = 0"
  by (simp add: trailingSpace_def whiteSpace_def)

lemma TrimSpace_Nil: "TrimSpace [] = []"
  by (simp add: TrimSpace_def TrimLeft.simps[of "[]"] TrimRight.simps[of "[]"]
      leadingSpace_Nil trailingSpace_Nil)

lemma slashdotLoop_eq:
  "slashdotLoop L feed items posts = posts @ List.map_filter (slashdotItem L feed) items"
  by (induction items arbitrary: posts) (auto split: option.splits)

lemma atomLoop_eq:
  "atomLoop L h feed entries posts = posts @ List.map_filter (atomEntry L h feed) entries"
  by (induction entries arbitrary: posts) (auto split: option.splits)

lemma rssLoop_eq:
  "rssLoop h feed items posts = posts @ List.map_filter (rssItem h feed) items"
  by (induction items arbitrary: posts) (auto split: option.splits)

lemma rssLink_eq:
  "rssLink item =
     (if TrimSpace (item_Link item) \<noteq> [] then TrimSpace (item_Link item)
      else if TrimSpace (item_AtomLinkHref item) \<noteq> [] then TrimSpace (item_AtomLinkHref item)
      else TrimSpace (item_GUID item))"
  by (auto simp: rssLink_def Let_def TrimSpace_Nil)

subsection \<open>The link of an RSS item\<close>

text \<open>
  On a decoded item the loop takes as link the first of these three that is not
  empty after trimming: the field \<^verbatim>\<open>Link\<close>, the field \<^verbatim>\<open>AtomLink.Href\<close>, the field
  \<^verbatim>\<open>GUID\<close>. It skips the item exactly when its trimmed title or this link is empty
  and returns the posts of the other items, in order.
\<close>

lemma rssItem_link:
  "rssLoop h feed items [] = List.map_filter (rssItem h feed) items
   \<and> (rssItem h feed item = None \<longleftrightarrow> TrimSpace (item_Title item) = [] \<or> rssLink item = [])
   \<and> (\<forall>post. rssItem h feed item = Some post \<longrightarrow>
         Title post = TrimSpace (item_Title item) \<and> Link post = rssLink item)
   \<and> rssLink item =
       (if TrimSpace (item_Link item) \<noteq> [] then TrimSpace (item_Link item)
        else if TrimSpace (item_AtomLinkHref item) \<noteq> [] then TrimSpace (item_AtomLinkHref item)
        else TrimSpace (item_GUID item))"
proof (intro conjI allI impI)
  show "rssLoop h feed items [] = List.map_filter (rssItem h feed) items"
    by (simp add: rssLoop_eq)
  show "rssItem h feed item = None \<longleftrightarrow> TrimSpace (item_Title item) = [] \<or> rssLink item = []"
    by (simp add: rssItem_def Let_def)
  show "rssLink item =
       (if TrimSpace (item_Link item) \<noteq> [] then TrimSpace (item_Link item)
        else if TrimSpace (item_AtomLinkHref item) \<noteq> [] then TrimSpace (item_AtomLinkHref item)
        else TrimSpace (item_GUID item))"
    by (rule rssLink_eq)
next
  fix post
  assume "rssItem h feed item = Some post"
  then show "Title post = TrimSpace (item_Title item)" "Link post = rssLink item"
    by (auto simp: rssItem_def Let_def split: if_splits)
qed

text \<open>
  The decoder, however, gives every element named \<open>link\<close> to the field \<^verbatim>\<open>Link\<close>, whose
  tag names no namespace and which is declared before \<^verbatim>\<open>AtomLink\<close>: the field
  \<^verbatim>\<open>AtomLink.Href\<close> of a decoded item is always empty, and an Atom link that follows
  the item's own link replaces it with its own character data.
\<close>

lemma unmarshalChild_link:
  "xe_Local el = ''link'' \<Longrightarrow> unmarshalChild item el = item\<lparr>item_Link := xe_Text el\<rparr>"
  by (simp add: unmarshalChild_def itemFields_def fieldMatches_def)

lemma unmarshalChild_AtomLinkHref:
  "item_AtomLinkHref (unmarshalChild item el) = item_AtomLinkHref item"
  by (simp add: unmarshalChild_def itemFields_def fieldMatches_def)

lemma foldl_unmarshalChild_AtomLinkHref:
  "item_AtomLinkHref (foldl unmarshalChild item children) = item_AtomLinkHref item"
  by (induction children arbitrary: item) (simp_all add: unmarshalChild_AtomLinkHref)

lemma unmarshalItem_AtomLinkHref: "item_AtomLinkHref (unmarshalItem children) = []"
  by (simp add: unmarshalItem_def foldl_unmarshalChild_AtomLinkHref)

lemma decoded_rssLink:
  "rssLink (unmarshalItem children) =
     (if TrimSpace (item_Link (unmarshalItem children)) \<noteq> []
      then TrimSpace (item_Link (unmarshalItem children))
      else TrimSpace (item_GUID (unmarshalItem children)))"
  by (simp add: rssLink_eq unmarshalItem_AtomLinkHref TrimSpace_Nil)

text \<open>
  Claim C8 says that the link of an RSS item is its own link if there is one, else
  the \<^verbatim>\<open>href\<close> of its Atom link, else its guid. The body \<open>''rss-atom''\<close> is a channel of
  two items. The first has the title \<open>Own link\<close>, the link \<open>https://x.test/a\<close> and, after
  it, an Atom link to \<open>https://x.test/alt\<close>: it is decoded with an empty \<^verbatim>\<open>Link\<close> and
  dropped. The second has the title \<open>Atom link only\<close>, the same Atom link and the guid
  \<open>https://x.test/g\<close>: its post has the guid as link, not the \<^verbatim>\<open>href\<close>.
\<close>

theorem atom_link_is_never_read:
  "unmarshalItem xmlItemOwnAndAtomLink
     = \<lparr>item_Title = ''Own link'', item_Link = [], item_GUID = [], item_ItemID = [],
        item_AtomLinkHref = []\<rparr>
   \<and> unmarshalItem xmlItemAtomLinkOnly
       = \<lparr>item_Title = ''Atom link only'', item_Link = [], item_GUID = ''https://x.test/g'',
          item_ItemID = [], item_AtomLinkHref = []\<rparr>
   \<and> fst (ParseRSSFeed (netReturning 200 ''rss-atom'') xmlLib exampleAgents exampleFeed)
       = Inr [\<lparr>GUID = ''ExampleNews:https://x.test/g'', Title = ''Atom link only'',
               Header = ''Example News'', Link = ''https://x.test/g''\<rparr>]"
  by code_simp

subsection \<open>The fetch\<close>

lemma fetchLoop_cases:
  "fetchLoop call 0 \<lparr>fs_resp = None, fs_err = None, fs_trace = []\<rparr> =
     (case call 0 of
        Inr resp \<Rightarrow> \<lparr>fs_resp = Some resp, fs_err = None, fs_trace = [Do 0]\<rparr>
      | Inl e0 \<Rightarrow>
          (case call 1 of
             Inr resp \<Rightarrow> \<lparr>fs_resp = Some resp, fs_err = None, fs_trace = [Do 0, Sleep 500, Do 1]\<rparr>
           | Inl e1 \<Rightarrow>
               (case call 2 of
                  Inr resp \<Rightarrow> \<lparr>fs_resp = Some resp, fs_err = None,
                               fs_trace = [Do 0, Sleep 500, Do 1, Sleep 1000, Do 2]\<rparr>
                | Inl e2 \<Rightarrow> \<lparr>fs_resp = None, fs_err = Some e2,
                             fs_trace = [Do 0, Sleep 500, Do 1, Sleep 1000, Do 2]\<rparr>)))"
  by (simp add: fetchLoop.simps[of call 0] fetchLoop.simps[of call "Suc 0"]
      fetchLoop.simps[of call "Suc (Suc 0)"] fetchLoop.simps[of call 2]
      fetchLoop.simps[of call "Suc (Suc (Suc 0))"] fetchLoop.simps[of call 3]
      maxRetries_def Let_def numeral_2_eq_2 numeral_3_eq_3 split: sum.splits)

lemma parseBody_not_status: "parseBody L feed body \<noteq> Inl (UnexpectedStatusCode c)"
  by (simp add: parseBody_def Let_def split: sum.splits)

lemma parseBody_not_empty: "parseBody L feed body \<noteq> Inr []"
  by (simp add: parseBody_def Let_def split: sum.splits)

text \<open>
  Claim C6, as the code has it. Once the request is built, the fetch calls
  \<^verbatim>\<open>client.Do\<close> at most three times; a second and a third call are made only after
  the call before returned an error, after a sleep of 500 ms and of 1000 ms; three
  errors end the fetch with the last one. The first response that arrives ends the
  loop whatever its status: a status other than 200 is returned at once as the
  error \<open>UnexpectedStatusCode\<close>, with no further call, and the status 200 never is.
  (The claim spoke of the whole class 2xx: the code accepts 200 alone.)
\<close>

theorem fetch_retry_policy:
  assumes "NewRequestError N (feed_URL feed) = None"
    and "call = client_Do N (buildRequest userAgents feed)"
  shows "ParseRSSFeed N L userAgents feed =
     (case call 0 of
        Inr resp \<Rightarrow> (readResponse L feed resp, [Do 0])
      | Inl e0 \<Rightarrow>
          (case call 1 of
             Inr resp \<Rightarrow> (readResponse L feed resp, [Do 0, Sleep 500, Do 1])
           | Inl e1 \<Rightarrow>
               (case call 2 of
                  Inr resp \<Rightarrow>
                    (readResponse L feed resp, [Do 0, Sleep 500, Do 1, Sleep 1000, Do 2])
                | Inl e2 \<Rightarrow>
                    (Inl (RequestFailedAfterRetries e2),
                     [Do 0, Sleep 500, Do 1, Sleep 1000, Do 2]))))
   \<and> (resp_StatusCode resp \<noteq> 200 \<longrightarrow>
        readResponse L feed resp = Inl (UnexpectedStatusCode (resp_StatusCode resp)))
   \<and> (resp_StatusCode resp = 200 \<longrightarrow>
        (\<forall>c. readResponse L feed resp \<noteq> Inl (UnexpectedStatusCode c)))"
  using assms
  by (simp add: ParseRSSFeed_def Let_def fetchLoop_cases readResponse_def parseBody_not_status
      split: sum.splits)

text \<open>
  On \<open>flakyNet\<close> the first call fails, the second is made after 500 ms and is answered
  with the status 500, which ends the fetch.
\<close>

theorem fetch_retry_policy_witness:
  "NewRequestError flakyNet (feed_URL exampleFeed) = None
   \<and> ParseRSSFeed flakyNet exampleLib exampleAgents exampleFeed
       = (Inl (UnexpectedStatusCode 500), [Do 0, Sleep 500, Do 1])"
proof -
  have h: "NewRequestError flakyNet (feed_URL exampleFeed) = None"
    by (simp add: flakyNet_def)
  from fetch_retry_policy [where N = flakyNet and feed = exampleFeed
      and userAgents = exampleAgents and L = exampleLib
      and call = "client_Do flakyNet (buildRequest exampleAgents exampleFeed)"
      and resp = "\<lparr>resp_StatusCode = 500, resp_Body = Inr []\<rparr>", OF h refl]
  have "ParseRSSFeed flakyNet exampleLib exampleAgents exampleFeed
       = (Inl (UnexpectedStatusCode 500), [Do 0, Sleep 500, Do 1])"
    by (simp add: flakyNet_def)
  with h show ?thesis by simp
qed

text \<open>
  The status 204 is of the success class, and the fetch returns it as an error.
\<close>

theorem status_204_is_an_error:
  "(200::int) \<le> 204 \<and> (204::int) < 300
   \<and> ParseRSSFeed (netReturning 204 ''rss'') exampleLib exampleAgents exampleFeed
       = (Inl (UnexpectedStatusCode 204), [Do 0])"
  by code_simp

subsection \<open>A feed without qualifying articles\<close>

lemma ParseRSSFeed_fetched:
  assumes "NewRequestError N (feed_URL feed) = None"
    and "fetchLoop (client_Do N (buildRequest userAgents feed)) 0
           \<lparr>fs_resp = None, fs_err = None, fs_trace = []\<rparr> = st"
    and "fs_err st = None" and "fs_resp st = Some resp"
  shows "fst (ParseRSSFeed N L userAgents feed) = readResponse L feed resp"
  using assms by (auto simp: ParseRSSFeed_def Let_def)

lemma ParseRSSFeed_not_empty: "fst (ParseRSSFeed N L userAgents feed) \<noteq> Inr []"
  by (simp add: ParseRSSFeed_def Let_def readResponse_def parseBody_not_empty
      split: option.splits sum.splits)

text \<open>
  Claim C5. When the fetch ends with a response of status 200 whose body is read and
  decodes, and the item loop of the feed's variant (Slashdot RDF, Atom, RSS) leaves
  no post, \<^verbatim>\<open>ParseRSSFeed\<close> returns the error \<open>NoNewsReleasesFound\<close> ("no news releases
  found in feed"); and it never returns an empty list of posts without an error.
\<close>

theorem empty_feed_is_error:
  assumes "NewRequestError N (feed_URL feed) = None"
    and "fetchLoop (client_Do N (buildRequest userAgents feed)) 0
           \<lparr>fs_resp = None, fs_err = None, fs_trace = []\<rparr> = st"
    and "fs_err st = None" and "fs_resp st = Some resp"
    and "resp_StatusCode resp = 200" and "resp_Body resp = Inr body"
  shows "(feed_Header feed = ''Slashdot'' \<and> decodeSlashdotRDF L body = Inr sitems
            \<and> slashdotLoop L feed sitems [] = []
          \<longrightarrow> fst (ParseRSSFeed N L userAgents feed) = Inl NoNewsReleasesFound)
       \<and> (feed_Header feed \<noteq> ''Slashdot'' \<and> HasPrefix (feed_Header feed) ''r/''
            \<and> decodeAtomFeed L body = Inr entries
            \<and> atomLoop L (removeSpaces (feed_Header feed)) feed entries [] = []
          \<longrightarrow> fst (ParseRSSFeed N L userAgents feed) = Inl NoNewsReleasesFound)
       \<and> (feed_Header feed \<noteq> ''Slashdot'' \<and> \<not> HasPrefix (feed_Header feed) ''r/''
            \<and> decodeRSS L body = Inr items
            \<and> rssLoop (removeSpaces (feed_Header feed)) feed items [] = []
          \<longrightarrow> fst (ParseRSSFeed N L userAgents feed) = Inl NoNewsReleasesFound)
       \<and> fst (ParseRSSFeed N L userAgents feed) \<noteq> Inr []"
proof -
  have "fst (ParseRSSFeed N L userAgents feed) = parseBody L feed body"
    using ParseRSSFeed_fetched [OF assms(1-4)] assms(5,6) by (simp add: readResponse_def)
  moreover have "parseBody L feed body \<noteq> Inr []"
    by (rule parseBody_not_empty)
  ultimately show ?thesis
    by (auto simp: parseBody_def Let_def)
qed

text \<open>
  The only item of the body \<open>''rss''\<close> has no link and is skipped: the feed is an
  error.
\<close>

theorem empty_feed_is_error_witness:
  "fetchLoop (client_Do (netReturning 200 ''rss'') (buildRequest exampleAgents exampleFeed)) 0
      \<lparr>fs_resp = None, fs_err = None, fs_trace = []\<rparr>
     = \<lparr>fs_resp = Some \<lparr>resp_StatusCode = 200, resp_Body = Inr ''rss''\<rparr>, fs_err = None,
        fs_trace = [Do 0]\<rparr>
   \<and> decodeRSS exampleLib ''rss'' = Inr [exampleItem2]
   \<and> rssLoop (removeSpaces (feed_Header exampleFeed)) exampleFeed [exampleItem2] [] = []
   \<and> fst (ParseRSSFeed (netReturning 200 ''rss'') exampleLib exampleAgents exampleFeed)
       = Inl NoNewsReleasesFound"
proof -
  have n: "NewRequestError (netReturning 200 ''rss'') (feed_URL exampleFeed) = None"
    by (simp add: netReturning_def)
  have f: "fetchLoop (client_Do (netReturning 200 ''rss'')
              (buildRequest exampleAgents exampleFeed)) 0
      \<lparr>fs_resp = None, fs_err = None, fs_trace = []\<rparr>
     = \<lparr>fs_resp = Some \<lparr>resp_StatusCode = 200, resp_Body = Inr ''rss''\<rparr>, fs_err = None,
        fs_trace = [Do 0]\<rparr>"
    by (simp add: fetchLoop_cases netReturning_def)
  have h: "feed_Header exampleFeed \<noteq> ''Slashdot''"
    "\<not> HasPrefix (feed_Header exampleFeed) ''r/''"
    by (simp_all add: exampleFeed_def HasPrefix_def)
  have d: "decodeRSS exampleLib ''rss'' = Inr [exampleItem2]"
    by (simp add: exampleLib_def)
  have l: "rssLoop (removeSpaces (feed_Header exampleFeed)) exampleFeed [exampleItem2] [] = []"
    by code_simp
  from empty_feed_is_error [OF n f, of "\<lparr>resp_StatusCode = 200, resp_Body = Inr ''rss''\<rparr>"
      "''rss''" exampleLib _ _ "[exampleItem2]"] h d l
  have "fst (ParseRSSFeed (netReturning 200 ''rss'') exampleLib exampleAgents exampleFeed)
       = Inl NoNewsReleasesFound"
    by simp
  with f d l show ?thesis by simp
qed

subsection \<open>The fields of an RSS post\<close>

text \<open>
  Trimming twice is trimming once, so the RSS loop, which skips an item whose
  trimmed title or resolved link is empty, emits only posts whose title and link
  are not blank.
\<close>

lemma TrimLeft_fixed: "leadingSpace s = 0 \<Longrightarrow> TrimLeft s = s"
  by (simp add: TrimLeft.simps [of s])

lemma TrimRight_fixed: "trailingSpace s = 0 \<Longrightarrow> TrimRight s = s"
  by (simp add: TrimRight.simps [of s])

lemma leadingSpace_TrimLeft: "leadingSpace (TrimLeft s) = 0"
proof (induction s rule: TrimLeft.induct)
  case (1 s)
  then show ?case by (cases "leadingSpace s = 0") (simp_all add: TrimLeft.simps [of s])
qed

lemma trailingSpace_TrimRight: "trailingSpace (TrimRight s) = 0"
proof (induction s rule: TrimRight.induct)
  case (1 s)
  then show ?case by (cases "trailingSpace s = 0") (simp_all add: TrimRight.simps [of s])
qed

lemma whiteSpace_nonempty: "w \<in> set whiteSpace \<Longrightarrow> w \<noteq> []"
  by (auto simp: whiteSpace_def)

lemma leadingSpace_0_iff: "leadingSpace s = 0 \<longleftrightarrow> (\<forall>w\<in>set whiteSpace. \<not> prefix w s)"
proof
  assume "leadingSpace s = 0"
  then have "find (\<lambda>w. prefix w s) whiteSpace = None"
    by (auto simp: leadingSpace_def split: option.splits
        dest!: find_Some_iff [THEN iffD1] whiteSpace_nonempty [OF nth_mem])
  then show "\<forall>w\<in>set whiteSpace. \<not> prefix w s"
    by (simp add: find_None_iff)
next
  assume "\<forall>w\<in>set whiteSpace. \<not> prefix w s"
  then have "find (\<lambda>w. prefix w s) whiteSpace = None"
    by (simp add: find_None_iff)
  then show "leadingSpace s = 0" by (simp add: leadingSpace_def)
qed

lemma leadingSpace_take: "leadingSpace s = 0 \<Longrightarrow> leadingSpace (take n s) = 0"
  unfolding leadingSpace_0_iff
  by (meson prefix_order.trans take_is_prefix)

lemma leadingSpace_TrimRight: "leadingSpace s = 0 \<Longrightarrow> leadingSpace (TrimRight s) = 0"
proof (induction s rule: TrimRight.induct)
  case (1 s)
  show ?case
  proof (cases "trailingSpace s = 0")
    case True
    with 1 show ?thesis by (simp add: TrimRight.simps [of s])
  next
    case False
    with 1 show ?thesis by (simp add: TrimRight.simps [of s] leadingSpace_take)
  qed
qed

lemma TrimSpace_idem: "TrimSpace (TrimSpace s) = TrimSpace s"
  by (simp add: TrimSpace_def TrimLeft_fixed TrimRight_fixed leadingSpace_TrimRight
      leadingSpace_TrimLeft trailingSpace_TrimRight)

lemma rssLink_trimmed: "TrimSpace (rssLink item) = rssLink item"
  by (simp add: rssLink_eq TrimSpace_idem)

lemma rssItem_fields:
  assumes "rssItem h feed item = Some post"
  shows "GUID post \<noteq> [] \<and> TrimSpace (Title post) \<noteq> [] \<and> TrimSpace (Link post) \<noteq> []"
  using assms
  by (auto simp: rssItem_def Let_def TrimSpace_idem rssLink_trimmed split: if_splits)

lemma set_map_filter_iff: "x \<in> set (List.map_filter f xs) \<longleftrightarrow> (\<exists>y\<in>set xs. f y = Some x)"
  by (induction xs) (auto split: option.splits)

lemma rssLoop_fields:
  "\<forall>post\<in>set (rssLoop h feed items []).
     GUID post \<noteq> [] \<and> TrimSpace (Title post) \<noteq> [] \<and> TrimSpace (Link post) \<noteq> []"
  by (auto simp: rssLoop_eq set_map_filter_iff dest: rssItem_fields)

subsection \<open>An Atom entry without a link\<close>

text \<open>
  Claim C1 says that no parser emits an article whose link is empty. The RSS loop
  skips an item whose link is empty; the Atom loop checks the link only when the
  entry has no id. Here the feed \<open>r/x\<close> is fetched with the status 200, and its body
  decodes to the one entry \<open>entryWithoutLink\<close>, which has a title and an id and neither
  a link nor content: \<^verbatim>\<open>ParseRSSFeed\<close> returns it as an article whose \<open>Link\<close> is empty.
\<close>

theorem atom_entry_without_link_is_emitted:
  "fst (ParseRSSFeed (netReturning 200 ''atom'') exampleLib exampleAgents redditFeed)
     = Inr [\<lparr>GUID = ''r/x:id1'', Title = ''T'', Header = ''r/x'', Link = []\<rparr>]"
  by code_simp

text \<open>
  The Slashdot loop compares the link with the empty string before any trimming: an
  item whose link is a single space is emitted, with this link as its GUID.
\<close>

lemma slashdot_blank_link_is_emitted:
  "slashdotItem exampleLib exampleFeed \<lparr>sd_Title = ''T'', sd_Link = '' ''\<rparr>
     = Some \<lparr>GUID = '' '', Title = ''T'', Header = ''Example News'', Link = '' ''\<rparr>"
  by code_simp

subsection \<open>The GUID of an article\<close>

lemma parseBody_rss:
  assumes "feed_Header feed \<noteq> ''Slashdot''" and "\<not> HasPrefix (feed_Header feed) ''r/''"
    and "decodeRSS L body = Inr items" and "parseBody L feed body = Inr posts"
  shows "posts = List.map_filter (rssItem (removeSpaces (feed_Header feed)) feed) items"
  using assms by (simp add: parseBody_def rssLoop_eq split: if_splits)

lemma parseBody_atom:
  assumes "feed_Header feed \<noteq> ''Slashdot''" and "HasPrefix (feed_Header feed) ''r/''"
    and "decodeAtomFeed L body = Inr entries" and "parseBody L feed body = Inr posts"
  shows "posts = List.map_filter (atomEntry L (removeSpaces (feed_Header feed)) feed) entries"
  using assms by (simp add: parseBody_def atomLoop_eq split: if_splits)

text \<open>
  Claim C2. Let \<open>h\<close> be the feed's header without its spaces. The posts of an RSS
  feed are those of its items that are not skipped, in order, and so are the posts
  of an Atom feed. The identifier of an RSS item is its trimmed guid or, when that is
  empty, its trimmed itemID; the identifier of an Atom entry is its trimmed id; the
  resolved link is \<open>rssLink\<close> for an RSS item and, for an Atom entry, the external
  link of its content if there is one, else its trimmed \<^verbatim>\<open>href\<close>. An RSS item is
  skipped exactly when its trimmed title or its resolved link is empty; an Atom
  entry exactly when its trimmed title is empty, or its identifier and its resolved
  link both are. The post of any other item has the trimmed title, the feed's
  header, the resolved link, and as GUID: \<open>h\<close>, a colon and the identifier when the
  identifier and \<open>h\<close> are not empty; the identifier when it is not empty and \<open>h\<close> is;
  the resolved link, with no prefix, when the identifier is empty.
\<close>

theorem guid_construction:
  assumes "h = removeSpaces (feed_Header feed)"
  shows
   "(feed_Header feed \<noteq> ''Slashdot'' \<and> \<not> HasPrefix (feed_Header feed) ''r/''
       \<and> decodeRSS L body = Inr items \<and> parseBody L feed body = Inr posts
     \<longrightarrow> posts = List.map_filter (rssItem h feed) items)
    \<and> (feed_Header feed \<noteq> ''Slashdot'' \<and> HasPrefix (feed_Header feed) ''r/''
       \<and> decodeAtomFeed L body = Inr entries \<and> parseBody L feed body = Inr posts
     \<longrightarrow> posts = List.map_filter (atomEntry L h feed) entries)
    \<and> (rssItem h feed item = None
         \<longleftrightarrow> TrimSpace (item_Title item) = [] \<or> rssLink item = [])
    \<and> (\<forall>post. rssItem h feed item = Some post \<longrightarrow>
         (let ident = (if TrimSpace (item_GUID item) \<noteq> [] then TrimSpace (item_GUID item)
                       else TrimSpace (item_ItemID item))
          in (ident \<noteq> [] \<and> h \<noteq> [] \<longrightarrow> GUID post = h @ '':'' @ ident)
           \<and> (ident \<noteq> [] \<and> h = [] \<longrightarrow> GUID post = ident)
           \<and> (ident = [] \<longrightarrow> GUID post = rssLink item)
           \<and> Link post = rssLink item
           \<and> Title post = TrimSpace (item_Title item)
           \<and> Header post = feed_Header feed))
    \<and> (let ext = externalFromContent L (entry_Content entry);
             resolved = (if snd ext then fst ext else TrimSpace (entry_LinkHref entry))
         in atomEntry L h feed entry = None
              \<longleftrightarrow> TrimSpace (entry_Title entry) = []
                  \<or> (TrimSpace (entry_ID entry) = [] \<and> resolved = []))
    \<and> (\<forall>post. atomEntry L h feed entry = Some post \<longrightarrow>
         (let ident = TrimSpace (entry_ID entry);
              ext = externalFromContent L (entry_Content entry);
              resolved = (if snd ext then fst ext else TrimSpace (entry_LinkHref entry))
          in (ident \<noteq> [] \<and> h \<noteq> [] \<longrightarrow> GUID post = h @ '':'' @ ident)
           \<and> (ident \<noteq> [] \<and> h = [] \<longrightarrow> GUID post = ident)
           \<and> (ident = [] \<longrightarrow> GUID post = resolved)
           \<and> Link post = resolved
           \<and> Title post = TrimSpace (entry_Title entry)
           \<and> Header post = feed_Header feed))"
proof (intro conjI allI impI)
  assume "feed_Header feed \<noteq> ''Slashdot'' \<and> \<not> HasPrefix (feed_Header feed) ''r/''
       \<and> decodeRSS L body = Inr items \<and> parseBody L feed body = Inr posts"
  then show "posts = List.map_filter (rssItem h feed) items"
    using parseBody_rss [of feed L body items posts] assms by simp
next
  assume "feed_Header feed \<noteq> ''Slashdot'' \<and> HasPrefix (feed_Header feed) ''r/''
       \<and> decodeAtomFeed L body = Inr entries \<and> parseBody L feed body = Inr posts"
  then show "posts = List.map_filter (atomEntry L h feed) entries"
    using parseBody_atom [of feed L body entries posts] assms by simp
next
  show "rssItem h feed item = None
         \<longleftrightarrow> TrimSpace (item_Title item) = [] \<or> rssLink item = []"
    by (simp add: rssItem_def Let_def)
next
  fix post
  assume "rssItem h feed item = Some post"
  then show "let ident = (if TrimSpace (item_GUID item) \<noteq> [] then TrimSpace (item_GUID item)
                       else TrimSpace (item_ItemID item))
          in (ident \<noteq> [] \<and> h \<noteq> [] \<longrightarrow> GUID post = h @ '':'' @ ident)
           \<and> (ident \<noteq> [] \<and> h = [] \<longrightarrow> GUID post = ident)
           \<and> (ident = [] \<longrightarrow> GUID post = rssLink item)
           \<and> Link post = rssLink item
           \<and> Title post = TrimSpace (item_Title item)
           \<and> Header post = feed_Header feed"
    by (auto simp: rssItem_def Let_def split: if_splits)
next
  show "let ext = externalFromContent L (entry_Content entry);
             resolved = (if snd ext then fst ext else TrimSpace (entry_LinkHref entry))
         in atomEntry L h feed entry = None
              \<longleftrightarrow> TrimSpace (entry_Title entry) = []
                  \<or> (TrimSpace (entry_ID entry) = [] \<and> resolved = [])"
    by (auto simp: atomEntry_def Let_def split: if_splits prod.splits)
next
  fix post
  assume "atomEntry L h feed entry = Some post"
  then show "let ident = TrimSpace (entry_ID entry);
              ext = externalFromContent L (entry_Content entry);
              resolved = (if snd ext then fst ext else TrimSpace (entry_LinkHref entry))
          in (ident \<noteq> [] \<and> h \<noteq> [] \<longrightarrow> GUID post = h @ '':'' @ ident)
           \<and> (ident \<noteq> [] \<and> h = [] \<longrightarrow> GUID post = ident)
           \<and> (ident = [] \<longrightarrow> GUID post = resolved)
           \<and> Link post = resolved
           \<and> Title post = TrimSpace (entry_Title entry)
           \<and> Header post = feed_Header feed"
    by (auto simp: atomEntry_def Let_def split: if_splits prod.splits)
qed

text \<open>
  RSS, header \<open>Example News\<close>: the item decoded from \<open>xmlItemWithGuid\<close> gets the GUID
  \<open>ExampleNews:g1\<close>, and the item with no guid and the link \<open>https://x.test/a\<close> gets this
  link as its GUID. Atom, header \<open>r/ask science\<close>: the entry with the id \<open>t3_1\<close> gets the
  GUID \<open>r/askscience:t3_1\<close> and keeps its own link; the entry with a blank id, whose
  content links to \<open>https://news.test/y\<close>, gets this link as its link and as its GUID.
\<close>

theorem guid_construction_witness:
  "''ExampleNews'' = removeSpaces (feed_Header exampleFeed)
   \<and> ''r/askscience'' = removeSpaces (feed_Header askScienceFeed)
   \<and> unmarshalItem xmlItemWithGuid = itemWithGuid
   \<and> rssItem ''ExampleNews'' exampleFeed itemWithGuid
       = Some \<lparr>GUID = ''ExampleNews:g1'', Title = ''First'', Header = ''Example News'',
               Link = ''https://x.test/first''\<rparr>
   \<and> rssItem ''ExampleNews'' exampleFeed exampleItem3
       = Some \<lparr>GUID = ''https://x.test/a'', Title = ''Third'', Header = ''Example News'',
               Link = ''https://x.test/a''\<rparr>
   \<and> GUID \<lparr>GUID = ''https://x.test/a'', Title = ''Third'', Header = ''Example News'',
            Link = ''https://x.test/a''\<rparr> = rssLink exampleItem3
   \<and> atomEntry htmlLib ''r/askscience'' askScienceFeed entryWithId
       = Some \<lparr>GUID = ''r/askscience:t3_1'', Title = ''Why is the sky blue?'',
               Header = ''r/ask science'', Link = ''https://www.reddit.com/r/askscience/1''\<rparr>
   \<and> atomEntry htmlLib ''r/askscience'' askScienceFeed entryWithoutId
       = Some \<lparr>GUID = ''https://news.test/y'', Title = ''Seen elsewhere'',
               Header = ''r/ask science'', Link = ''https://news.test/y''\<rparr>
   \<and> GUID \<lparr>GUID = ''https://news.test/y'', Title = ''Seen elsewhere'',
            Header = ''r/ask science'', Link = ''https://news.test/y''\<rparr>
       = fst (externalFromContent htmlLib (entry_Content entryWithoutId))"
proof -
  have h: "''ExampleNews'' = removeSpaces (feed_Header exampleFeed)"
    by code_simp
  have h': "''r/askscience'' = removeSpaces (feed_Header askScienceFeed)"
    by code_simp
  have u: "unmarshalItem xmlItemWithGuid = itemWithGuid"
    by code_simp
  have e1: "rssItem ''ExampleNews'' exampleFeed itemWithGuid
       = Some \<lparr>GUID = ''ExampleNews:g1'', Title = ''First'', Header = ''Example News'',
               Link = ''https://x.test/first''\<rparr>"
    by code_simp
  have e3: "rssItem ''ExampleNews'' exampleFeed exampleItem3
       = Some \<lparr>GUID = ''https://x.test/a'', Title = ''Third'', Header = ''Example News'',
               Link = ''https://x.test/a''\<rparr>"
    by code_simp
  have i3: "TrimSpace (item_GUID exampleItem3) = []" "TrimSpace (item_ItemID exampleItem3) = []"
    by code_simp+
  from guid_construction [OF h, where item = exampleItem3] e3 i3
  have g3: "GUID \<lparr>GUID = ''https://x.test/a'', Title = ''Third'', Header = ''Example News'',
            Link = ''https://x.test/a''\<rparr> = rssLink exampleItem3"
    by (simp add: Let_def)
  have a1: "atomEntry htmlLib ''r/askscience'' askScienceFeed entryWithId
       = Some \<lparr>GUID = ''r/askscience:t3_1'', Title = ''Why is the sky blue?'',
               Header = ''r/ask science'', Link = ''https://www.reddit.com/r/askscience/1''\<rparr>"
    by code_simp
  have a2: "atomEntry htmlLib ''r/askscience'' askScienceFeed entryWithoutId
       = Some \<lparr>GUID = ''https://news.test/y'', Title = ''Seen elsewhere'',
               Header = ''r/ask science'', Link = ''https://news.test/y''\<rparr>"
    by code_simp
  have i2: "TrimSpace (entry_ID entryWithoutId) = []"
    "snd (externalFromContent htmlLib (entry_Content entryWithoutId))"
    by code_simp+
  from guid_construction [OF h', where L = htmlLib and entry = entryWithoutId] a2 i2
  have g2: "GUID \<lparr>GUID = ''https://news.test/y'', Title = ''Seen elsewhere'',
            Header = ''r/ask science'', Link = ''https://news.test/y''\<rparr>
       = fst (externalFromContent htmlLib (entry_Content entryWithoutId))"
    by (simp add: Let_def)
  from h h' u e1 e3 g3 a1 a2 g2 show ?thesis by blast
qed

subsection \<open>The external link resolver\<close>

lemma find_append_case:
  "find P (xs @ ys) = (case find P xs of Some x \<Rightarrow> Some x | None \<Rightarrow> find P ys)"
  by (induction xs) auto

lemma scanAttrs_find: "scanAttrs L (tok_Attr t) = find (usableHref L) (hrefsOf t)"
proof -
  have "scanAttrs L as
      = find (usableHref L)
          (map (\<lambda>a. TrimSpace (attr_Val a)) (filter (\<lambda>a. attr_Key a = ''href'') as))" for as
    by (induction as) (auto simp: usableHref_def Let_def split: option.splits)
  then show ?thesis by (simp add: hrefsOf_def)
qed

lemma scanTokens_find:
  "scanTokens L ts =
     (case find (usableHref L) (anchorHrefs ts) of Some h \<Rightarrow> (h, True) | None \<Rightarrow> ([], False))"
proof (induction ts)
  case Nil
  show ?case by (simp add: anchorHrefs_def)
next
  case (Cons t ts)
  then show ?case
    by (auto simp: anchorHrefs_def isAnchor_def scanAttrs_find find_append_case
        split: option.splits)
qed

lemma isRedditHost_iff:
  "isRedditHost host \<longleftrightarrow>
     host = ''redd.it'' \<or> host = ''reddit.com'' \<or> (\<exists>sub. host = sub @ ''.reddit.com'')
     \<or> host = ''redditmedia.com'' \<or> (\<exists>sub. host = sub @ ''.redditmedia.com'')"
  by (auto simp: isRedditHost_def HasSuffix_def suffix_def)

text \<open>
  What the two loops compute. On a blank input \<^verbatim>\<open>externalFromContent\<close> returns
  not-found. On any other input it un-escapes the input, reads the token stream,
  and returns the first candidate link of the anchors, in the order of the stream,
  that is usable: the \<^verbatim>\<open>href\<close> is not empty, \<^verbatim>\<open>url.Parse\<close> accepts it with the scheme
  \<open>http\<close> or \<open>https\<close>, and \<^verbatim>\<open>isRedditHost\<close> rejects the lower-cased field \<^verbatim>\<open>Host\<close>; it
  returns not-found when no candidate is usable. \<^verbatim>\<open>isRedditHost\<close> accepts the strings
  \<open>redd.it\<close>, \<open>reddit.com\<close> and \<open>redditmedia.com\<close> and those that end with a dot and one
  of the last two. The field \<^verbatim>\<open>Host\<close> is compared as it is, with its port if it has
  one.
\<close>

lemma externalFromContent_first_usable:
  "(TrimSpace escaped = [] \<longrightarrow> externalFromContent L escaped = ([], False))
   \<and> (TrimSpace escaped \<noteq> [] \<longrightarrow>
        externalFromContent L escaped =
          (case find (usableHref L) (anchorHrefs (Tokenizer L (UnescapeString L escaped))) of
             Some h \<Rightarrow> (h, True)
           | None \<Rightarrow> ([], False)))
   \<and> (usableHref L h \<longleftrightarrow>
        h \<noteq> [] \<and> (\<exists>u. url_Parse L h = Some u
                      \<and> (url_Scheme u = ''http'' \<or> url_Scheme u = ''https'')
                      \<and> \<not> isRedditHost (ToLower L (url_Host u))))
   \<and> (isRedditHost host \<longleftrightarrow>
        host = ''redd.it'' \<or> host = ''reddit.com'' \<or> (\<exists>sub. host = sub @ ''.reddit.com'')
        \<or> host = ''redditmedia.com'' \<or> (\<exists>sub. host = sub @ ''.redditmedia.com''))"
proof (intro conjI impI)
  assume "TrimSpace escaped = []"
  then show "externalFromContent L escaped = ([], False)"
    by (simp add: externalFromContent_def)
next
  assume "TrimSpace escaped \<noteq> []"
  then show "externalFromContent L escaped =
          (case find (usableHref L) (anchorHrefs (Tokenizer L (UnescapeString L escaped))) of
             Some h \<Rightarrow> (h, True)
           | None \<Rightarrow> ([], False))"
    by (simp add: externalFromContent_def scanTokens_find)
next
  show "usableHref L h \<longleftrightarrow>
        h \<noteq> [] \<and> (\<exists>u. url_Parse L h = Some u
                      \<and> (url_Scheme u = ''http'' \<or> url_Scheme u = ''https'')
                      \<and> \<not> isRedditHost (ToLower L (url_Host u)))"
    by (auto simp: usableHref_def split: option.splits)
next
  show "isRedditHost host \<longleftrightarrow>
        host = ''redd.it'' \<or> host = ''reddit.com'' \<or> (\<exists>sub. host = sub @ ''.reddit.com'')
        \<or> host = ''redditmedia.com'' \<or> (\<exists>sub. host = sub @ ''.redditmedia.com'')"
    by (rule isRedditHost_iff)
qed

text \<open>
  In \<open>exampleContent\<close> the first anchor leads to \<open>reddit.com\<close> and is passed over; the
  second is returned.
\<close>

lemma externalFromContent_example:
  "TrimSpace exampleContent \<noteq> []
   \<and> anchorHrefs (Tokenizer htmlLib (UnescapeString htmlLib exampleContent))
       = [''https://reddit.com/r/x'', ''https://news.test/y'']
   \<and> externalFromContent htmlLib exampleContent = (''https://news.test/y'', True)"
proof -
  have t: "TrimSpace exampleContent \<noteq> []"
    by code_simp
  have a: "anchorHrefs (Tokenizer htmlLib (UnescapeString htmlLib exampleContent))
       = [''https://reddit.com/r/x'', ''https://news.test/y'']"
    by code_simp
  have u: "\<not> usableHref htmlLib ''https://reddit.com/r/x''"
    "usableHref htmlLib ''https://news.test/y''"
    by code_simp+
  from externalFromContent_first_usable [of exampleContent htmlLib] t
  have "externalFromContent htmlLib exampleContent =
          (case find (usableHref htmlLib)
                  (anchorHrefs (Tokenizer htmlLib (UnescapeString htmlLib exampleContent))) of
             Some h \<Rightarrow> (h, True)
           | None \<Rightarrow> ([], False))"
    by blast
  then have "externalFromContent htmlLib exampleContent = (''https://news.test/y'', True)"
    by (simp add: a u)
  with t a show ?thesis by simp
qed

text \<open>
  Claim C7 says that an anchor whose host is \<open>reddit.com\<close> is passed over. The only
  anchor of \<open>portContent\<close> leads to \<open>https://reddit.com:443/r/x\<close>: its host is
  \<open>reddit.com\<close>, which \<^verbatim>\<open>isRedditHost\<close> accepts, but the field \<^verbatim>\<open>Host\<close> that the code
  hands to \<^verbatim>\<open>isRedditHost\<close> is \<open>reddit.com:443\<close>, which it rejects, and the link to Reddit
  is returned as the external link.
\<close>

theorem reddit_link_with_port_is_returned:
  "isRedditHost ''reddit.com''
   \<and> url_Parse portLib ''https://reddit.com:443/r/x''
       = Some \<lparr>url_Scheme = ''https'', url_Host = ''reddit.com:443''\<rparr>
   \<and> isRedditHost ''reddit.com:443'' = False
   \<and> externalFromContent portLib portContent = (''https://reddit.com:443/r/x'', True)"
  by code_simp

section \<open>Properties of the orchestrator\<close>

subsection \<open>The aggregation loop\<close>

lemma seenSet_empty: "seenSet Map.empty = {}"
  by (simp add: seenSet_def readSeen_def)

lemma seenSet_upd: "seenSet (seen(g \<mapsto> True)) = insert g (seenSet seen)"
  by (auto simp: seenSet_def readSeen_def)

lemma readSeen_iff: "readSeen seen g \<longleftrightarrow> g \<in> seenSet seen"
  by (simp add: seenSet_def)

lemma mergeArticles_eq:
  "mergeArticles arts (seen, acc) = (seen', acc') \<Longrightarrow>
     acc' = acc @ firstByGUID (seenSet seen) arts \<and> seenSet seen' = seenSet seen \<union> GUID ` set arts"
proof (induction arts arbitrary: seen acc)
  case Nil
  then show ?case by simp
next
  case (Cons a arts)
  show ?case
  proof (cases "readSeen seen (GUID a)")
    case True
    with Cons.prems have "mergeArticles arts (seen, acc) = (seen', acc')" by simp
    from Cons.IH [OF this] True show ?thesis by (auto simp: readSeen_iff)
  next
    case False
    with Cons.prems have "mergeArticles arts (seen(GUID a \<mapsto> True), acc @ [a]) = (seen', acc')"
      by simp
    from Cons.IH [OF this]
    have "acc' = (acc @ [a]) @ firstByGUID (insert (GUID a) (seenSet seen)) arts
        \<and> seenSet seen' = insert (GUID a) (seenSet seen) \<union> GUID ` set arts"
      by (simp only: seenSet_upd)
    with False show ?thesis by (auto simp: readSeen_iff)
  qed
qed

lemma firstByGUID_append:
  "firstByGUID S (xs @ ys) = firstByGUID S xs @ firstByGUID (S \<union> GUID ` set xs) ys"
  by (induction xs arbitrary: S) (auto simp: insert_absorb)

lemma allArticles_Cons:
  "allArticles (r # rs) = (if Err r = None then Articles r @ allArticles rs else allArticles rs)"
  by (simp add: allArticles_def)

lemma allArticles_append: "allArticles (rs @ rs') = allArticles rs @ allArticles rs'"
  by (simp add: allArticles_def)

lemma mergeResults_eq:
  "mergeResults rs (seen, acc) = (seen', acc') \<Longrightarrow>
     acc' = acc @ firstByGUID (seenSet seen) (allArticles rs)"
proof (induction rs arbitrary: seen acc)
  case Nil
  then show ?case by (simp add: allArticles_def)
next
  case (Cons r rs)
  show ?case
  proof (cases "Err r = None")
    case True
    obtain s1 a1 where m: "mergeArticles (Articles r) (seen, acc) = (s1, a1)"
      by (cases "mergeArticles (Articles r) (seen, acc)")
    with Cons.prems True have "mergeResults rs (s1, a1) = (seen', acc')" by simp
    from Cons.IH [OF this] mergeArticles_eq [OF m] True show ?thesis
      by (simp add: allArticles_Cons firstByGUID_append)
  next
    case False
    with Cons.prems have "mergeResults rs (seen, acc) = (seen', acc')" by simp
    from Cons.IH [OF this] False show ?thesis by (auto simp: allArticles_Cons)
  qed
qed

lemma aggregate_eq: "aggregate rs = firstByGUID {} (allArticles rs)"
proof -
  obtain s a where m: "mergeResults rs (Map.empty, []) = (s, a)"
    by (cases "mergeResults rs (Map.empty, [])")
  from mergeResults_eq [OF m] m show ?thesis
    by (simp add: aggregate_def seenSet_empty)
qed

lemma firstByGUID_guids: "GUID ` set (firstByGUID S xs) = GUID ` set xs - S"
  by (induction xs arbitrary: S) auto

lemma firstByGUID_distinct: "distinct (map GUID (firstByGUID S xs))"
  by (induction xs arbitrary: S) (auto simp: firstByGUID_guids)

lemma firstByGUID_find:
  "find (\<lambda>a. GUID a = g) (firstByGUID S xs) = (if g \<in> S then None else find (\<lambda>a. GUID a = g) xs)"
  by (induction xs arbitrary: S) auto

lemma firstByGUID_subseq: "subseq (firstByGUID S xs) xs"
  by (induction xs arbitrary: S) auto

lemma count_absent: "g \<notin> f ` set xs \<Longrightarrow> filter (\<lambda>a. f a = g) xs = []"
  by (induction xs) auto

lemma distinct_count_le1:
  "distinct (map f xs) \<Longrightarrow> length (filter (\<lambda>a. f a = g) xs) \<le> 1"
proof (induction xs)
  case Nil
  show ?case by simp
next
  case (Cons a xs)
  show ?case
  proof (cases "f a = g")
    case True
    with Cons.prems have "g \<notin> f ` set xs" by auto
    then have "filter (\<lambda>a. f a = g) xs = []" by (rule count_absent)
    with True show ?thesis by simp
  next
    case False
    with Cons show ?thesis by simp
  qed
qed

lemma distinct_count_eq1:
  assumes "distinct (map f xs)" and "g \<in> f ` set xs"
  shows "length (filter (\<lambda>a. f a = g) xs) = 1"
proof -
  from assms(2) have "filter (\<lambda>a. f a = g) xs \<noteq> []"
    by (auto simp: filter_empty_conv)
  then have "length (filter (\<lambda>a. f a = g) xs) \<noteq> 0" by simp
  with distinct_count_le1 [OF assms(1), of g] show ?thesis by linarith
qed

lemma fanIn_distinct:
  "distinct order \<Longrightarrow> length results = length feeds \<Longrightarrow>
   fanIn task feeds order results =
     map (\<lambda>i. if i \<in> set order then task i (feeds ! i) (results ! i) else results ! i)
       [0..<length feeds]"
proof (induction order arbitrary: results)
  case Nil
  have "map ((!) results) [0..<length results] = results" by (rule map_nth)
  with Nil.prems show ?case by simp
next
  case (Cons i order)
  show ?case
  proof (cases "i < length feeds")
    case True
    have "fanIn task feeds (i # order) results
        = fanIn task feeds order (results[i := task i (feeds ! i) (results ! i)])"
      using True by simp
    also have "\<dots> = map (\<lambda>j. if j \<in> set order
                 then task j (feeds ! j) (results[i := task i (feeds ! i) (results ! i)] ! j)
                 else results[i := task i (feeds ! i) (results ! i)] ! j) [0..<length feeds]"
      using Cons.prems by (intro Cons.IH) auto
    also have "\<dots> = map (\<lambda>j. if j \<in> set (i # order) then task j (feeds ! j) (results ! j)
                 else results ! j) [0..<length feeds]"
      using Cons.prems True by (auto simp: nth_list_update)
    finally show ?thesis .
  next
    case False
    have "fanIn task feeds (i # order) results = fanIn task feeds order results"
      using False by simp
    also have "\<dots> = map (\<lambda>j. if j \<in> set order then task j (feeds ! j) (results ! j)
                 else results ! j) [0..<length feeds]"
      using Cons.prems by (intro Cons.IH) auto
    also have "\<dots> = map (\<lambda>j. if j \<in> set (i # order) then task j (feeds ! j) (results ! j)
                 else results ! j) [0..<length feeds]"
      using False by auto
    finally show ?thesis .
  qed
qed

lemma firstByGUID_id:
  "distinct (map GUID xs) \<Longrightarrow> GUID ` set xs \<inter> S = {} \<Longrightarrow> firstByGUID S xs = xs"
  by (induction xs arbitrary: S) auto

lemma allArticles_failed: "\<forall>r\<in>set rs. Err r \<noteq> None \<Longrightarrow> allArticles rs = []"
  by (induction rs) (auto simp: allArticles_Cons allArticles_def)

lemma guidIndex_less: "guidIndex g xs < length xs \<longleftrightarrow> g \<in> GUID ` set xs"
  by (induction xs) (auto simp: guidIndex_def)

lemma guidIndex_append:
  "guidIndex g (xs @ ys) =
     (if g \<in> GUID ` set xs then guidIndex g xs else length xs + guidIndex g ys)"
  by (induction xs) (auto simp: guidIndex_def)

lemma aggregate_guids: "GUID ` set (aggregate rs) = GUID ` set (allArticles rs)"
  by (simp add: aggregate_eq firstByGUID_guids)

lemma aggregate_append:
  "aggregate (rs @ rs') = aggregate rs @ firstByGUID (GUID ` set (allArticles rs)) (allArticles rs')"
  by (simp add: aggregate_eq allArticles_append firstByGUID_append)

lemma runTasks_eq:
  assumes "distinct order" and "set order = {0..<length (Feeds W)}"
  shows "runTasks W cfg order =
     map (\<lambda>i. feedTask W (makeUserAgents (cfg_email cfg)) (cfg_envTarget cfg) i (Feeds W ! i)
                 \<lparr>Articles = [], Err = None\<rparr>) [0..<length (Feeds W)]"
  using assms by (simp add: runTasks_def fanIn_distinct)

lemma order_two_feeds:
  assumes "Err A = None" and "a \<in> set (Articles A)" and "b \<in> set (Articles B)"
    and "GUID b \<notin> GUID ` set (allArticles (pre @ [A]))" and "Err B = None"
  shows "guidIndex (GUID a) (aggregate (pre @ A # mid @ B # post))
           < guidIndex (GUID b) (aggregate (pre @ A # mid @ B # post))
       \<and> guidIndex (GUID b) (aggregate (pre @ A # mid @ B # post))
           < length (aggregate (pre @ A # mid @ B # post))"
proof -
  let ?X = "pre @ [A]" and ?Y = "mid @ B # post"
  let ?out = "aggregate (?X @ ?Y)"
  have out: "?out = aggregate ?X @ firstByGUID (GUID ` set (allArticles ?X)) (allArticles ?Y)"
    by (rule aggregate_append)
  have ga: "GUID a \<in> GUID ` set (aggregate ?X)"
    using assms(1,2) by (auto simp: aggregate_guids allArticles_append allArticles_Cons allArticles_def)
  have gb: "GUID b \<notin> GUID ` set (aggregate ?X)"
    using assms(4) by (simp add: aggregate_guids)
  have gb': "GUID b \<in> GUID ` set ?out"
    using assms(3,5) by (auto simp: aggregate_guids allArticles_append allArticles_Cons allArticles_def)
  have "guidIndex (GUID a) ?out = guidIndex (GUID a) (aggregate ?X)"
    using ga by (simp only: out guidIndex_append if_True)
  also have "\<dots> < length (aggregate ?X)"
    using ga by (simp add: guidIndex_less)
  also have "\<dots> \<le> guidIndex (GUID b) ?out"
    using gb by (simp only: out guidIndex_append if_False le_add1)
  finally have "guidIndex (GUID a) ?out < guidIndex (GUID b) ?out" .
  moreover have "guidIndex (GUID b) ?out < length ?out"
    using gb' by (simp only: guidIndex_less)
  ultimately show ?thesis by simp
qed

lemma find_append_left:
  "g \<in> GUID ` set xs \<Longrightarrow> find (\<lambda>a. GUID a = g) (xs @ ys) = find (\<lambda>a. GUID a = g) xs"
  by (induction xs) auto

lemma find_append_right:
  "g \<notin> GUID ` set xs \<Longrightarrow> find (\<lambda>a. GUID a = g) (xs @ ys) = find (\<lambda>a. GUID a = g) ys"
  by (induction xs) auto

lemma aggregate_find:
  "find (\<lambda>a. GUID a = g) (aggregate rs) = find (\<lambda>a. GUID a = g) (allArticles rs)"
  by (simp add: aggregate_eq firstByGUID_find)

lemma dedup_two_feeds:
  assumes "Err A = None" and "g \<in> GUID ` set (Articles A)"
  shows "length (filter (\<lambda>a. GUID a = g) (aggregate (pre @ A # rest))) = 1"
    and "find (\<lambda>a. GUID a = g) (aggregate (pre @ A # rest))
           = find (\<lambda>a. GUID a = g) (allArticles pre @ Articles A)"
proof -
  have "g \<in> GUID ` set (aggregate (pre @ A # rest))"
    using assms by (auto simp: aggregate_guids allArticles_append allArticles_Cons)
  then show "length (filter (\<lambda>a. GUID a = g) (aggregate (pre @ A # rest))) = 1"
    by (intro distinct_count_eq1) (simp_all add: aggregate_eq firstByGUID_distinct)
  have "allArticles (pre @ A # rest) = (allArticles pre @ Articles A) @ allArticles rest"
    using assms(1) by (simp add: allArticles_append allArticles_Cons)
  moreover have "g \<in> GUID ` set (allArticles pre @ Articles A)"
    using assms(2) by auto
  ultimately show "find (\<lambda>a. GUID a = g) (aggregate (pre @ A # rest))
           = find (\<lambda>a. GUID a = g) (allArticles pre @ Articles A)"
    by (simp only: aggregate_find find_append_left)
qed

subsection \<open>Order and uniqueness of the output\<close>

text \<open>
  Claim C3. Let the goroutines finish in any order, each once, and let \<open>A\<close> and \<open>B\<close> be
  the results of two feeds that did not fail, \<open>A\<close> declared before \<open>B\<close>. Whatever the
  order, the slot \<open>i\<close> of the results holds the outcome of the \<open>i\<close>-th declared feed.
  In the output, the article that carries the GUID of an article of \<open>A\<close> stands before
  the article that carries the GUID of an article of \<open>B\<close>, unless that GUID was produced
  by \<open>A\<close> or by a feed before it. A GUID that both feeds produce is the GUID of one
  article of the output: the first article with this GUID among those of the feeds
  up to \<open>A\<close> (the first such article of \<open>A\<close> when no earlier feed produces the GUID),
  and so never the one of \<open>B\<close>.
\<close>

theorem feed_order_and_dedup:
  assumes "distinct order" and "set order = {0..<length (Feeds W)}"
    and "runTasks W cfg order = pre @ A # mid @ B # post"
    and "Err A = None" and "Err B = None"
    and "out = aggregate (runTasks W cfg order)"
  shows "runTasks W cfg order
       = map (\<lambda>i. feedTask W (makeUserAgents (cfg_email cfg)) (cfg_envTarget cfg) i
                    (Feeds W ! i) \<lparr>Articles = [], Err = None\<rparr>) [0..<length (Feeds W)]
    \<and> (\<forall>a\<in>set (Articles A). \<forall>b\<in>set (Articles B).
          GUID b \<notin> GUID ` set (allArticles (pre @ [A])) \<longrightarrow>
          guidIndex (GUID a) out < guidIndex (GUID b) out \<and> guidIndex (GUID b) out < length out)
    \<and> (\<forall>g\<in>GUID ` set (Articles A) \<inter> GUID ` set (Articles B).
          length (filter (\<lambda>a. GUID a = g) out) = 1
          \<and> find (\<lambda>a. GUID a = g) out = find (\<lambda>a. GUID a = g) (allArticles pre @ Articles A)
          \<and> (g \<notin> GUID ` set (allArticles pre) \<longrightarrow>
               find (\<lambda>a. GUID a = g) out = find (\<lambda>a. GUID a = g) (Articles A)))"
proof (intro conjI ballI impI)
  show "runTasks W cfg order
       = map (\<lambda>i. feedTask W (makeUserAgents (cfg_email cfg)) (cfg_envTarget cfg) i
                    (Feeds W ! i) \<lparr>Articles = [], Err = None\<rparr>) [0..<length (Feeds W)]"
    by (rule runTasks_eq [OF assms(1,2)])
next
  fix a b
  assume "a \<in> set (Articles A)" "b \<in> set (Articles B)"
    "GUID b \<notin> GUID ` set (allArticles (pre @ [A]))"
  from order_two_feeds [OF assms(4) this assms(5), of mid post]
  show "guidIndex (GUID a) out < guidIndex (GUID b) out" "guidIndex (GUID b) out < length out"
    by (simp_all add: assms(3,6))
next
  fix g
  assume g: "g \<in> GUID ` set (Articles A) \<inter> GUID ` set (Articles B)"
  then have gA: "g \<in> GUID ` set (Articles A)" by simp
  from dedup_two_feeds [OF assms(4) gA, of pre "mid @ B # post"]
  show "length (filter (\<lambda>a. GUID a = g) out) = 1"
    and f: "find (\<lambda>a. GUID a = g) out = find (\<lambda>a. GUID a = g) (allArticles pre @ Articles A)"
    by (simp_all add: assms(3,6))
  assume "g \<notin> GUID ` set (allArticles pre)"
  then show "find (\<lambda>a. GUID a = g) out = find (\<lambda>a. GUID a = g) (Articles A)"
    by (simp add: f find_append_right)
qed

text \<open>
  In \<open>exampleWorld\<close> the third feed finishes first and the second fails. The first and
  the third both produce the GUID \<open>News:foo\<close>: the output has the article of the first
  feed, followed by the other article of the third.
\<close>

theorem feed_order_and_dedup_witness:
  "distinct [2, 0, 1 :: nat]
   \<and> set [2, 0, 1] = {0..<length (Feeds exampleWorld)}
   \<and> runTasks exampleWorld exampleConfig [2, 0, 1]
       = [] @ \<lparr>Articles = [fooAtA], Err = None\<rparr>
            # [\<lparr>Articles = [], Err = Some (UnexpectedStatusCode 500)\<rparr>]
            @ \<lparr>Articles = [fooAtC, barAtC], Err = None\<rparr> # []
   \<and> aggregate (runTasks exampleWorld exampleConfig [2, 0, 1]) = [fooAtA, barAtC]
   \<and> guidIndex (GUID fooAtA) (aggregate (runTasks exampleWorld exampleConfig [2, 0, 1]))
       < guidIndex (GUID barAtC) (aggregate (runTasks exampleWorld exampleConfig [2, 0, 1]))
   \<and> find (\<lambda>a. GUID a = ''News:foo'') (aggregate (runTasks exampleWorld exampleConfig [2, 0, 1]))
       = Some fooAtA"
proof -
  let ?A = "\<lparr>Articles = [fooAtA], Err = None\<rparr>"
  let ?C = "\<lparr>Articles = [fooAtC, barAtC], Err = None\<rparr>"
  let ?out = "aggregate (runTasks exampleWorld exampleConfig [2, 0, 1])"
  have d: "distinct [2, 0, 1 :: nat]" by simp
  have s: "set [2, 0, 1] = {0..<length (Feeds exampleWorld)}"
    by (auto simp: exampleWorld_def)
  have r: "runTasks exampleWorld exampleConfig [2, 0, 1]
       = [] @ ?A # [\<lparr>Articles = [], Err = Some (UnexpectedStatusCode 500)\<rparr>] @ ?C # []"
    by code_simp
  have o: "?out = [fooAtA, barAtC]"
    by code_simp
  have ok: "Err ?A = None" "Err ?C = None" by simp_all
  note T = feed_order_and_dedup [OF d s r ok refl]
  have T': "(\<forall>a\<in>set (Articles ?A). \<forall>b\<in>set (Articles ?C).
          GUID b \<notin> GUID ` set (allArticles ([] @ [?A])) \<longrightarrow>
          guidIndex (GUID a) ?out < guidIndex (GUID b) ?out \<and> guidIndex (GUID b) ?out < length ?out)
    \<and> (\<forall>g\<in>GUID ` set (Articles ?A) \<inter> GUID ` set (Articles ?C).
          length (filter (\<lambda>a. GUID a = g) ?out) = 1
          \<and> find (\<lambda>a. GUID a = g) ?out = find (\<lambda>a. GUID a = g) (allArticles [] @ Articles ?A)
          \<and> (g \<notin> GUID ` set (allArticles []) \<longrightarrow>
               find (\<lambda>a. GUID a = g) ?out = find (\<lambda>a. GUID a = g) (Articles ?A)))"
    by (rule T [THEN conjunct2])
  have g: "GUID fooAtA = ''News:foo''" "GUID fooAtC = ''News:foo''" "GUID barAtC = ''News:bar''"
    by (simp_all add: fooAtA_def fooAtC_def barAtC_def)
  have "GUID barAtC \<notin> GUID ` set (allArticles ([] @ [?A]))"
    by (simp add: allArticles_def g)
  with T' have i: "guidIndex (GUID fooAtA) ?out < guidIndex (GUID barAtC) ?out"
    by simp
  have "''News:foo'' \<in> GUID ` set (Articles ?A) \<inter> GUID ` set (Articles ?C)"
    by (simp add: g)
  with T' have "find (\<lambda>a. GUID a = ''News:foo'') ?out
      = find (\<lambda>a. GUID a = ''News:foo'') (allArticles [] @ Articles ?A)"
    by blast
  then have f: "find (\<lambda>a. GUID a = ''News:foo'') ?out = Some fooAtA"
    by (simp add: allArticles_def g)
  from d s r o i f show ?thesis by blast
qed

subsection \<open>One article for each GUID\<close>

text \<open>
  Claim C10. No two articles of the output have the same GUID, whatever the results
  are, and so also when the list of one feed has two articles with the same GUID:
  the output is a subsequence of the articles of the feeds that did not fail, and
  its article with a given GUID is the first of them with this GUID; for a single
  feed, the first of its list.
\<close>

theorem guid_unique_in_output:
  "distinct (map GUID (aggregate results))
   \<and> length (filter (\<lambda>a. GUID a = g) (aggregate results)) \<le> 1
   \<and> find (\<lambda>a. GUID a = g) (aggregate results) = find (\<lambda>a. GUID a = g) (allArticles results)
   \<and> subseq (aggregate results) (allArticles results)
   \<and> find (\<lambda>a. GUID a = g) (aggregate [\<lparr>Articles = arts, Err = None\<rparr>])
       = find (\<lambda>a. GUID a = g) arts
   \<and> subseq (aggregate [\<lparr>Articles = arts, Err = None\<rparr>]) arts"
proof -
  have d: "distinct (map GUID (aggregate rs))" for rs
    by (simp add: aggregate_eq firstByGUID_distinct)
  have a: "allArticles [\<lparr>Articles = arts, Err = None\<rparr>] = arts"
    by (simp add: allArticles_def)
  have "subseq (aggregate rs) (allArticles rs)" for rs
    by (simp add: aggregate_eq firstByGUID_subseq)
  from this [of results] this [of "[\<lparr>Articles = arts, Err = None\<rparr>]"] d [of results]
    distinct_count_le1 [OF d, of g results] aggregate_find [of g results]
    aggregate_find [of g "[\<lparr>Articles = arts, Err = None\<rparr>]"]
  show ?thesis by (simp add: a)
qed

text \<open>
  A feed whose list has two articles with the GUID \<open>News:foo\<close>: the first is kept.
\<close>

theorem guid_unique_in_output_witness:
  "aggregate [\<lparr>Articles = [fooAtA, fooAtC, barAtC], Err = None\<rparr>] = [fooAtA, barAtC]
   \<and> find (\<lambda>a. GUID a = ''News:foo'') (aggregate [\<lparr>Articles = [fooAtA, fooAtC, barAtC], Err = None\<rparr>])
       = Some fooAtA"
proof -
  have o: "aggregate [\<lparr>Articles = [fooAtA, fooAtC, barAtC], Err = None\<rparr>] = [fooAtA, barAtC]"
    by code_simp
  have g: "GUID fooAtA = ''News:foo''"
    by (simp add: fooAtA_def)
  from guid_unique_in_output [of "[\<lparr>Articles = [fooAtA, fooAtC, barAtC], Err = None\<rparr>]"
      "''News:foo''" "[fooAtA, fooAtC, barAtC]"]
  have "find (\<lambda>a. GUID a = ''News:foo'') (aggregate [\<lparr>Articles = [fooAtA, fooAtC, barAtC], Err = None\<rparr>])
       = find (\<lambda>a. GUID a = ''News:foo'') [fooAtA, fooAtC, barAtC]"
    by blast
  then have "find (\<lambda>a. GUID a = ''News:foo'') (aggregate [\<lparr>Articles = [fooAtA, fooAtC, barAtC], Err = None\<rparr>])
       = Some fooAtA"
    by (simp add: g)
  with o show ?thesis by simp
qed

subsection \<open>Feeds that fail\<close>

lemma aggregate_drop_failed:
  "Err r \<noteq> None \<Longrightarrow> aggregate (rs1 @ r # rs2) = aggregate (rs1 @ rs2)"
  by (auto simp: aggregate_eq allArticles_append allArticles_Cons)

lemma feedTask_failed:
  "fst (ParseRSSFeed (net W) (lib W) ua fc) = Inl e \<Longrightarrow>
     feedTask W ua tgt i fc slot = slot\<lparr>Err := Some e\<rparr>"
  by (simp add: feedTask_def)

lemma runParsers_nothing:
  "loadEnv W = Inr cfg \<Longrightarrow> aggregate (runTasks W cfg order) = [] \<Longrightarrow>
     runParsers W order = (None, [])"
  by (simp add: runParsers_def Let_def)

text \<open>
  Claim C4. A feed whose \<^verbatim>\<open>ParseRSSFeed\<close> returns an error leaves its slot with this
  error and no article, and the aggregation passes over such a slot: the output is
  the one the results without it would give. The GUIDs of the output are those of
  the articles of the feeds that did not fail, and when these articles have
  distinct GUIDs the output is all of them, in order. When every feed fails, or
  when the output is empty for another reason, \<^verbatim>\<open>runParsers\<close> (its environment being
  complete) returns no error, and sends and marks nothing.
\<close>

theorem failed_feed_isolation:
  "(Err r \<noteq> None \<longrightarrow> aggregate (rs1 @ r # rs2) = aggregate (rs1 @ rs2))
   \<and> (fst (ParseRSSFeed (net W) (lib W) ua fc) = Inl e \<longrightarrow>
        feedTask W ua tgt i fc \<lparr>Articles = [], Err = None\<rparr> = \<lparr>Articles = [], Err = Some e\<rparr>)
   \<and> GUID ` set (aggregate rs) = GUID ` set (allArticles rs)
   \<and> (distinct (map GUID (allArticles rs)) \<longrightarrow> aggregate rs = allArticles rs)
   \<and> ((\<forall>r\<in>set rs. Err r \<noteq> None) \<longrightarrow> aggregate rs = [])
   \<and> (loadEnv W = Inr cfg \<and> aggregate (runTasks W cfg order) = []
        \<longrightarrow> runParsers W order = (None, []))
   \<and> (loadEnv W = Inr cfg \<and> (\<forall>r\<in>set (runTasks W cfg order). Err r \<noteq> None)
        \<longrightarrow> runParsers W order = (None, []))"
proof (intro conjI impI)
  assume "Err r \<noteq> None"
  then show "aggregate (rs1 @ r # rs2) = aggregate (rs1 @ rs2)"
    by (rule aggregate_drop_failed)
next
  assume "fst (ParseRSSFeed (net W) (lib W) ua fc) = Inl e"
  then show "feedTask W ua tgt i fc \<lparr>Articles = [], Err = None\<rparr> = \<lparr>Articles = [], Err = Some e\<rparr>"
    by (simp add: feedTask_failed)
next
  show "GUID ` set (aggregate rs) = GUID ` set (allArticles rs)"
    by (rule aggregate_guids)
next
  assume "distinct (map GUID (allArticles rs))"
  then show "aggregate rs = allArticles rs"
    by (simp add: aggregate_eq firstByGUID_id)
next
  assume "\<forall>r\<in>set rs. Err r \<noteq> None"
  then show "aggregate rs = []"
    by (simp add: aggregate_eq allArticles_failed)
next
  assume "loadEnv W = Inr cfg \<and> aggregate (runTasks W cfg order) = []"
  then show "runParsers W order = (None, [])"
    by (simp add: runParsers_nothing)
next
  assume a: "loadEnv W = Inr cfg \<and> (\<forall>r\<in>set (runTasks W cfg order). Err r \<noteq> None)"
  then have "aggregate (runTasks W cfg order) = []"
    by (simp add: aggregate_eq allArticles_failed)
  with a show "runParsers W order = (None, [])"
    by (simp add: runParsers_nothing)
qed

text \<open>
  In \<open>exampleWorld\<close> the second feed fails and the output is that of the first and the
  third; in \<open>failingWorld\<close> all three fail and the run ends without an error.
\<close>

theorem failed_feed_isolation_witness:
  "runTasks exampleWorld exampleConfig [2, 0, 1]
     = [\<lparr>Articles = [fooAtA], Err = None\<rparr>] @ \<lparr>Articles = [], Err = Some (UnexpectedStatusCode 500)\<rparr>
         # [\<lparr>Articles = [fooAtC, barAtC], Err = None\<rparr>]
   \<and> aggregate (runTasks exampleWorld exampleConfig [2, 0, 1])
       = aggregate ([\<lparr>Articles = [fooAtA], Err = None\<rparr>] @ [\<lparr>Articles = [fooAtC, barAtC], Err = None\<rparr>])
   \<and> aggregate (runTasks exampleWorld exampleConfig [2, 0, 1]) = [fooAtA, barAtC]
   \<and> loadEnv failingWorld = Inr exampleConfig
   \<and> list_all (\<lambda>r. Err r \<noteq> None) (runTasks failingWorld exampleConfig [2, 0, 1])
   \<and> runParsers failingWorld [2, 0, 1] = (None, [])"
proof -
  let ?B = "\<lparr>Articles = [], Err = Some (UnexpectedStatusCode 500)\<rparr>"
  have r: "runTasks exampleWorld exampleConfig [2, 0, 1]
     = [\<lparr>Articles = [fooAtA], Err = None\<rparr>] @ ?B # [\<lparr>Articles = [fooAtC, barAtC], Err = None\<rparr>]"
    by code_simp
  have b: "Err ?B \<noteq> None" by simp
  from failed_feed_isolation [where r = "?B" and ?rs1.0 = "[\<lparr>Articles = [fooAtA], Err = None\<rparr>]"
      and ?rs2.0 = "[\<lparr>Articles = [fooAtC, barAtC], Err = None\<rparr>]"] b
  have "aggregate ([\<lparr>Articles = [fooAtA], Err = None\<rparr>] @ ?B # [\<lparr>Articles = [fooAtC, barAtC], Err = None\<rparr>])
      = aggregate ([\<lparr>Articles = [fooAtA], Err = None\<rparr>] @ [\<lparr>Articles = [fooAtC, barAtC], Err = None\<rparr>])"
    by blast
  with r have a: "aggregate (runTasks exampleWorld exampleConfig [2, 0, 1])
       = aggregate ([\<lparr>Articles = [fooAtA], Err = None\<rparr>] @ [\<lparr>Articles = [fooAtC, barAtC], Err = None\<rparr>])"
    by simp
  have o: "aggregate (runTasks exampleWorld exampleConfig [2, 0, 1]) = [fooAtA, barAtC]"
    by code_simp
  have l: "loadEnv failingWorld = Inr exampleConfig"
    by code_simp
  have f: "list_all (\<lambda>r. Err r \<noteq> None) (runTasks failingWorld exampleConfig [2, 0, 1])"
    by code_simp
  then have "\<forall>r\<in>set (runTasks failingWorld exampleConfig [2, 0, 1]). Err r \<noteq> None"
    by (simp add: list_all_iff)
  with failed_feed_isolation [where W = failingWorld and cfg = exampleConfig and order = "[2, 0, 1]"] l
  have n: "runParsers failingWorld [2, 0, 1] = (None, [])"
    by blast
  from r a o l f n show ?thesis by blast
qed

subsection \<open>Lookup errors in \<^verbatim>\<open>collectUnpublished\<close>\<close>

lemma collectLoop_step:
  "collectLoop W lk tgt k (art # arts) acc =
     collectLoop W lk tgt (Suc k) arts (acc @ keptForm W tgt (lk k (GUID art)) art)"
  by (simp add: keptForm_def split: sum.splits)

lemma collectLoop_acc:
  "collectLoop W lk tgt k arts acc = acc @ collectLoop W lk tgt k arts []"
proof (induction arts arbitrary: k acc)
  case Nil
  show ?case by simp
next
  case (Cons a arts)
  let ?K = "keptForm W tgt (lk k (GUID a)) a"
  have "collectLoop W lk tgt k (a # arts) acc = collectLoop W lk tgt (Suc k) arts (acc @ ?K)"
    by (rule collectLoop_step)
  also have "\<dots> = (acc @ ?K) @ collectLoop W lk tgt (Suc k) arts []"
    by (rule Cons.IH)
  also have "\<dots> = acc @ (?K @ collectLoop W lk tgt (Suc k) arts [])"
    by simp
  also have "?K @ collectLoop W lk tgt (Suc k) arts [] = collectLoop W lk tgt (Suc k) arts ([] @ ?K)"
    using Cons.IH [of "Suc k" ?K] by simp
  also have "\<dots> = collectLoop W lk tgt k (a # arts) []"
    by (rule collectLoop_step [symmetric])
  finally show ?case .
qed

lemma collectLoop_append:
  "collectLoop W lk tgt k (xs @ ys) acc =
     collectLoop W lk tgt (k + length xs) ys (collectLoop W lk tgt k xs acc)"
proof (induction xs arbitrary: k acc)
  case Nil
  show ?case by simp
next
  case (Cons a xs)
  have "collectLoop W lk tgt k ((a # xs) @ ys) acc
      = collectLoop W lk tgt (Suc k) (xs @ ys) (acc @ keptForm W tgt (lk k (GUID a)) a)"
    by (simp only: append_Cons collectLoop_step)
  also have "\<dots> = collectLoop W lk tgt (Suc k + length xs) ys
                    (collectLoop W lk tgt (Suc k) xs (acc @ keptForm W tgt (lk k (GUID a)) a))"
    by (rule Cons.IH)
  also have "\<dots> = collectLoop W lk tgt (k + length (a # xs)) ys (collectLoop W lk tgt k (a # xs) acc)"
    by (simp only: collectLoop_step length_Cons add_Suc add_Suc_right)
  finally show ?case .
qed

lemma collectLoop_shift:
  "collectLoop W lk tgt (n + k) arts acc = collectLoop W (\<lambda>j. lk (n + j)) tgt k arts acc"
proof (induction arts arbitrary: k acc)
  case Nil
  show ?case by simp
next
  case (Cons a arts)
  have "collectLoop W lk tgt (n + k) (a # arts) acc
      = collectLoop W lk tgt (n + Suc k) arts (acc @ keptForm W tgt (lk (n + k) (GUID a)) a)"
    by (simp only: collectLoop_step add_Suc_right)
  also have "\<dots> = collectLoop W (\<lambda>j. lk (n + j)) tgt (Suc k) arts
                    (acc @ keptForm W tgt (lk (n + k) (GUID a)) a)"
    by (rule Cons.IH)
  also have "\<dots> = collectLoop W (\<lambda>j. lk (n + j)) tgt k (a # arts) acc"
    by (simp only: collectLoop_step)
  finally show ?case .
qed

lemma collectLoop_skip:
  assumes "lk (length xs) (GUID a) = Inl e"
  shows "collectLoop W lk tgt 0 (xs @ a # ys) [] =
     collectLoop W lk tgt 0 xs [] @ collectLoop W (\<lambda>k. lk (Suc (length xs) + k)) tgt 0 ys []"
proof -
  let ?X = "collectLoop W lk tgt 0 xs []"
  have "collectLoop W lk tgt 0 (xs @ a # ys) [] = collectLoop W lk tgt (0 + length xs) (a # ys) ?X"
    by (rule collectLoop_append)
  also have "\<dots> = collectLoop W lk tgt (Suc (length xs)) ys (?X @ keptForm W tgt (lk (length xs) (GUID a)) a)"
    by (simp only: collectLoop_step add_0)
  also have "\<dots> = collectLoop W lk tgt (Suc (length xs)) ys ?X"
    using assms by (simp add: keptForm_def)
  also have "\<dots> = ?X @ collectLoop W lk tgt (Suc (length xs) + 0) ys []"
    using collectLoop_acc [of W lk tgt "Suc (length xs)" ys ?X] by simp
  also have "\<dots> = ?X @ collectLoop W (\<lambda>k. lk (Suc (length xs) + k)) tgt 0 ys []"
    by (simp only: collectLoop_shift)
  finally show ?thesis .
qed

lemma collectLoop_kept:
  "collectLoop W lk tgt k arts [] =
     concat (map (\<lambda>(j, art). keptForm W tgt (lk j (GUID art)) art) (zip [k..<k + length arts] arts))"
proof (induction arts arbitrary: k)
  case Nil
  show ?case by simp
next
  case (Cons a arts)
  have "k < k + length (a # arts)" by simp
  from upt_conv_Cons [OF this]
  have u: "[k..<k + length (a # arts)] = k # [Suc k..<Suc k + length arts]"
    by simp
  have "collectLoop W lk tgt k (a # arts) []
      = keptForm W tgt (lk k (GUID a)) a @ collectLoop W lk tgt (Suc k) arts []"
    using collectLoop_acc [of W lk tgt "Suc k" arts "keptForm W tgt (lk k (GUID a)) a"]
    by (simp only: collectLoop_step append_Nil)
  then show ?case
    by (simp only: u Cons.IH zip_Cons_Cons list.map concat.simps prod.case)
qed

lemma concat_map_filter:
  "(\<And>x. f x = (if P x then [g x] else [])) \<Longrightarrow> concat (map f xs) = map g (filter P xs)"
  by (induction xs) auto

text \<open>
  Claim C9. \<^verbatim>\<open>collectUnpublished\<close> never returns an error. When the lookup of an
  article fails, the result is the result for the articles before it followed by
  the result for the articles after it, each looked up as in the whole run: the one
  article is left out and nothing else changes. For a target other than \<open>email\<close> the
  result is the articles whose lookup answered "not published", in order; for
  \<open>email\<close>, those of them with a title, each as its HTML snippet.
\<close>

theorem lookup_error_skips_one_article:
  "snd (collectUnpublished W lookup arts envTarget) = None
   \<and> (lookup (length xs) (GUID a) = Inl e \<longrightarrow>
        fst (collectUnpublished W lookup (xs @ a # ys) envTarget)
          = fst (collectUnpublished W lookup xs envTarget)
            @ fst (collectUnpublished W (\<lambda>k. lookup (Suc (length xs) + k)) ys envTarget))
   \<and> (envTarget \<noteq> ''email'' \<longrightarrow>
        fst (collectUnpublished W lookup arts envTarget)
          = map snd (filter (\<lambda>(k, art). lookup k (GUID art) = Inr False)
                       (zip [0..<length arts] arts)))
   \<and> (envTarget = ''email'' \<longrightarrow>
        fst (collectUnpublished W lookup arts envTarget)
          = map (\<lambda>(k, art). \<lparr>GUID = GUID art, Title = formatPost W art, Header = [], Link = []\<rparr>)
              (filter (\<lambda>(k, art). lookup k (GUID art) = Inr False \<and> Title art \<noteq> [])
                 (zip [0..<length arts] arts)))"
proof (intro conjI impI)
  show "snd (collectUnpublished W lookup arts envTarget) = None"
    by (simp add: collectUnpublished_def)
next
  assume "lookup (length xs) (GUID a) = Inl e"
  then show "fst (collectUnpublished W lookup (xs @ a # ys) envTarget)
          = fst (collectUnpublished W lookup xs envTarget)
            @ fst (collectUnpublished W (\<lambda>k. lookup (Suc (length xs) + k)) ys envTarget)"
    by (simp add: collectUnpublished_def collectLoop_skip)
next
  assume t: "envTarget \<noteq> ''email''"
  have "keptForm W envTarget (lookup (fst x) (GUID (snd x))) (snd x)
      = (if lookup (fst x) (GUID (snd x)) = Inr False then [snd x] else [])" for x
    using t by (auto simp: keptForm_def split: sum.splits)
  then have "concat (map (\<lambda>x. keptForm W envTarget (lookup (fst x) (GUID (snd x))) (snd x))
                  (zip [0..<length arts] arts))
      = map snd (filter (\<lambda>x. lookup (fst x) (GUID (snd x)) = Inr False) (zip [0..<length arts] arts))"
    by (rule concat_map_filter)
  then show "fst (collectUnpublished W lookup arts envTarget)
          = map snd (filter (\<lambda>(k, art). lookup k (GUID art) = Inr False)
                       (zip [0..<length arts] arts))"
    by (simp add: collectUnpublished_def collectLoop_kept [of W lookup envTarget 0 arts]
        case_prod_unfold)
next
  assume t: "envTarget = ''email''"
  have "keptForm W envTarget (lookup (fst x) (GUID (snd x))) (snd x)
      = (if lookup (fst x) (GUID (snd x)) = Inr False \<and> Title (snd x) \<noteq> []
         then [\<lparr>GUID = GUID (snd x), Title = formatPost W (snd x), Header = [], Link = []\<rparr>]
         else [])" for x
    using t by (auto simp: keptForm_def split: sum.splits)
  then have "concat (map (\<lambda>x. keptForm W envTarget (lookup (fst x) (GUID (snd x))) (snd x))
                  (zip [0..<length arts] arts))
      = map (\<lambda>x. \<lparr>GUID = GUID (snd x), Title = formatPost W (snd x), Header = [], Link = []\<rparr>)
          (filter (\<lambda>x. lookup (fst x) (GUID (snd x)) = Inr False \<and> Title (snd x) \<noteq> [])
             (zip [0..<length arts] arts))"
    by (rule concat_map_filter)
  then show "fst (collectUnpublished W lookup arts envTarget)
          = map (\<lambda>(k, art). \<lparr>GUID = GUID art, Title = formatPost W art, Header = [], Link = []\<rparr>)
              (filter (\<lambda>(k, art). lookup k (GUID art) = Inr False \<and> Title art \<noteq> [])
                 (zip [0..<length arts] arts))"
    by (simp add: collectUnpublished_def collectLoop_kept [of W lookup envTarget 0 arts]
        case_prod_unfold)
qed

text \<open>
  Of three articles the lookup of the second fails: the first and the third are
  returned.
\<close>

theorem lookup_error_skips_one_article_witness:
  "throttledLookup (length [fooAtA]) (GUID fooAtC) = Inl ''throttled''
   \<and> collectUnpublished exampleWorld throttledLookup ([fooAtA] @ fooAtC # [barAtC]) ''telegram''
       = ([fooAtA, barAtC], None)"
proof -
  have h: "throttledLookup (length [fooAtA]) (GUID fooAtC) = Inl ''throttled''"
    by (simp add: throttledLookup_def)
  have x: "fst (collectUnpublished exampleWorld throttledLookup [fooAtA] ''telegram'') = [fooAtA]"
    by code_simp
  have y: "fst (collectUnpublished exampleWorld (\<lambda>k. throttledLookup (Suc (length [fooAtA]) + k))
             [barAtC] ''telegram'') = [barAtC]"
    by code_simp
  from lookup_error_skips_one_article [of exampleWorld throttledLookup
      "[fooAtA] @ fooAtC # [barAtC]" "''telegram''" "[fooAtA]" fooAtC "''throttled''" "[barAtC]"] h
  have "snd (collectUnpublished exampleWorld throttledLookup ([fooAtA] @ fooAtC # [barAtC]) ''telegram'')
          = None
      \<and> fst (collectUnpublished exampleWorld throttledLookup ([fooAtA] @ fooAtC # [barAtC]) ''telegram'')
          = fst (collectUnpublished exampleWorld throttledLookup [fooAtA] ''telegram'')
            @ fst (collectUnpublished exampleWorld (\<lambda>k. throttledLookup (Suc (length [fooAtA]) + k))
                 [barAtC] ''telegram'')"
    by blast
  then have "collectUnpublished exampleWorld throttledLookup ([fooAtA] @ fooAtC # [barAtC]) ''telegram''
       = ([fooAtA, barAtC], None)"
    by (simp only: x y prod_eq_iff fst_conv snd_conv append_Cons append_Nil simp_thms)
  with h show ?thesis by simp
qed

end
